theory Spec2Isabelle
  imports Main "HOL-Library.Word" "HOL-Library.Sublist"
begin

unbundle bit_operations_syntax

text \<open>
  The NFC wallet: a React component, \<open>NfcScanner\<close>, that scans NFC tags into an archive
  kept in the secure store, renders their NDEF records, and emits an archived item through
  host card emulation (HCE). The model follows the component's handlers \<open>readNdef\<close>,
  \<open>handleDeleteItem\<close>, \<open>handleEmitItem\<close>, its effect \<open>initApp\<close> with the cleanup, the
  render \<open>parseNdefMessage\<close> and the hook \<open>useSecureStorage\<close>.
\<close>

section \<open>Strings, numbers and bytes\<close>

text \<open>
  A JavaScript string is modelled as a \<^typ>\<open>string\<close> holding its UTF-8 bytes; every
  string literal of the source is ASCII, where the two coincide. A byte is an
  \<^typ>\<open>8 word\<close>. Numbers that the source prints (\<open>Date.now()\<close>, \<open>tnf\<close>, \<open>maxSize\<close>,
  indices) are natural numbers.
\<close>

type_synonym byte = "8 word"

text \<open>
  \<open>Number.prototype.toString(radix)\<close> on a natural number, with lower-case digits, for a
  radix from 2 to 16; the sources use 10 and 16. Outside these radices (where JavaScript
  has more digits, or raises a RangeError) the model gives the empty string.
\<close>

definition digit_char :: "nat \<Rightarrow> char" where
  "digit_char d = ''0123456789abcdef'' ! d"

function toString_radix :: "nat \<Rightarrow> nat \<Rightarrow> string" where
  "toString_radix b n =
     (if b < 2 \<or> 16 < b then []
      else if n < b then [digit_char n]
      else toString_radix b (n div b) @ [digit_char (n mod b)])"
  by pat_completeness auto
termination
  by (relation "measure (\<lambda>(b, n). n)") auto

definition toString :: "nat \<Rightarrow> string" where
  "toString n = toString_radix 10 n"

text \<open>\<open>String.prototype.padStart(n, c)\<close> for a one-character filler.\<close>

definition padStart :: "nat \<Rightarrow> char \<Rightarrow> string \<Rightarrow> string" where
  "padStart n c s = replicate (n - length s) c @ s"

text \<open>\<open>Array.prototype.join(sep)\<close> on strings.\<close>

fun join :: "string \<Rightarrow> string list \<Rightarrow> string" where
  "join sep [] = []"
| "join sep [x] = x"
| "join sep (x # y # ys) = x @ sep @ join sep (y # ys)"

text \<open>\<open>String.prototype.includes(sub)\<close>.\<close>

fun str_includes :: "string \<Rightarrow> string \<Rightarrow> bool" where
  "str_includes [] sub = (sub = [])"
| "str_includes (c # cs) sub = (prefix sub (c # cs) \<or> str_includes cs sub)"

text \<open>
  \<open>String.prototype.trim()\<close> removes white space and line terminators from both ends.
  The code points that count, as UTF-8 byte sequences: U+0009 to U+000D, U+0020, U+00A0,
  U+1680, U+2000 to U+200A, U+2028, U+2029, U+202F, U+205F, U+3000 and U+FEFF.
\<close>

definition bytes_string :: "nat list \<Rightarrow> string" where
  "bytes_string ns = map char_of ns"

definition js_whitespace :: "string list" where
  "js_whitespace =
     map bytes_string
       ([[0x09], [0x0A], [0x0B], [0x0C], [0x0D], [0x20], [0xC2, 0xA0], [0xE1, 0x9A, 0x80]]
        @ map (\<lambda>k. [0xE2, 0x80, 0x80 + k]) [0..<11]
        @ [[0xE2, 0x80, 0xA8], [0xE2, 0x80, 0xA9], [0xE2, 0x80, 0xAF], [0xE2, 0x81, 0x9F],
           [0xE3, 0x80, 0x80], [0xEF, 0xBB, 0xBF]])"

text \<open>The length of the first pattern that starts the string, if one does.\<close>

definition lead_len :: "string list \<Rightarrow> string \<Rightarrow> nat option" where
  "lead_len pats s = map_option length (find (\<lambda>w. w \<noteq> [] \<and> prefix w s) pats)"

function strip_lead :: "string list \<Rightarrow> string \<Rightarrow> string" where
  "strip_lead pats s =
     (case lead_len pats s of None \<Rightarrow> s | Some n \<Rightarrow> strip_lead pats (drop n s))"
  by pat_completeness auto
termination
proof (relation "measure (\<lambda>(pats, s). length s)")
  show "wf (measure (\<lambda>(pats, s). length s))" by simp
next
  fix pats :: "string list" and s :: string and n :: nat
  assume "lead_len pats s = Some n"
  then obtain w where w: "find (\<lambda>w. w \<noteq> [] \<and> prefix w s) pats = Some w" and n: "n = length w"
    by (auto simp: lead_len_def)
  from w have "w \<noteq> []" and "prefix w s"
    by (auto simp: find_Some_iff)
  then have "0 < n" and "s \<noteq> []"
    using n by auto
  then show "((pats, drop n s), (pats, s)) \<in> measure (\<lambda>(pats, s). length s)"
    by simp
qed

definition trimStart :: "string \<Rightarrow> string" where
  "trimStart s = strip_lead js_whitespace s"

definition trimEnd :: "string \<Rightarrow> string" where
  "trimEnd s = rev (strip_lead (map rev js_whitespace) (rev s))"

definition trim :: "string \<Rightarrow> string" where
  "trim s = trimEnd (trimStart s)"

section \<open>The NDEF library\<close>

text \<open>
  The component calls \<open>Ndef\<close> of the NFC manager package, whose code is not among the
  sources. Its functions are modelled from the specification's section on the NDEF codec.
\<close>

record NdefRecord =
  tnf :: nat
  rtype :: "byte list"
  rec_id :: "byte list option"
  payload :: "byte list"

datatype ndef_error = MalformedPayload

text \<open>Modelled from the spec: \<open>Ndef.TNF_WELL_KNOWN\<close>, the well-known type name format.\<close>

definition TNF_WELL_KNOWN :: nat where
  "TNF_WELL_KNOWN = 1"

text \<open>Modelled from the spec: \<open>Ndef.RTD_TEXT\<close>, the well-known type "T".\<close>

definition RTD_TEXT :: "byte list" where
  "RTD_TEXT = [0x54]"

text \<open>Modelled from the spec: \<open>Ndef.RTD_URI\<close>, the well-known type "U".\<close>

definition RTD_URI :: "byte list" where
  "RTD_URI = [0x55]"

text \<open>
  Modelled from the spec: \<open>Ndef.isType\<close>, the classification "TNF == well-known AND
  type == T" (or U) of the render.
\<close>

definition isType :: "NdefRecord \<Rightarrow> nat \<Rightarrow> byte list \<Rightarrow> bool" where
  "isType r t ty = (tnf r = t \<and> rtype r = ty)"

text \<open>
  Modelled from the spec: \<open>Ndef.util.bytesToHexString\<close>, a byte sequence "shown as hex",
  two digits for each byte.
\<close>

definition bytesToHexString :: "byte list \<Rightarrow> string" where
  "bytesToHexString bs = concat (map (\<lambda>b. padStart 2 CHR ''0'' (toString_radix 16 (unat b))) bs)"

text \<open>The UTF-8 bytes of a string, and the string of UTF-8 bytes.\<close>

definition utf8_bytes :: "string \<Rightarrow> byte list" where
  "utf8_bytes s = map (\<lambda>c. of_nat (of_char c)) s"

definition utf8_string :: "byte list \<Rightarrow> string" where
  "utf8_string bs = map (\<lambda>b. char_of (unat b)) bs"

text \<open>
  UTF-16 (big-endian, as the NFC Forum text record has it) to the UTF-8 bytes of the same
  code points: code units, then surrogate pairs joined, then each code point encoded.
\<close>

fun utf16_units :: "byte list \<Rightarrow> nat list" where
  "utf16_units (hi # lo # bs) = (unat hi * 256 + unat lo) # utf16_units bs"
| "utf16_units bs = []"

fun utf16_points :: "nat list \<Rightarrow> nat list" where
  "utf16_points (h # l # us) =
     (if 0xD800 \<le> h \<and> h < 0xDC00 \<and> 0xDC00 \<le> l \<and> l < 0xE000
      then (0x10000 + (h - 0xD800) * 0x400 + (l - 0xDC00)) # utf16_points us
      else h # utf16_points (l # us))"
| "utf16_points us = us"

definition utf8_of_point :: "nat \<Rightarrow> nat list" where
  "utf8_of_point p =
     (if p < 0x80 then [p]
      else if p < 0x800 then [0xC0 + p div 0x40, 0x80 + p mod 0x40]
      else if p < 0x10000 then [0xE0 + p div 0x1000, 0x80 + p div 0x40 mod 0x40, 0x80 + p mod 0x40]
      else [0xF0 + p div 0x40000, 0x80 + p div 0x1000 mod 0x40, 0x80 + p div 0x40 mod 0x40,
            0x80 + p mod 0x40])"

definition utf16_string :: "byte list \<Rightarrow> string" where
  "utf16_string bs = bytes_string (concat (map utf8_of_point (utf16_points (utf16_units bs))))"

text \<open>
  Modelled from the spec: \<open>Ndef.text.decodePayload\<close>. The payload is a status byte, a
  language code and the text; the status byte has the length of the language code in bits
  0 to 5 and the UTF-16 flag in bit 7. The text alone is returned. The decoder of the
  library masks and slices and checks no length: a payload with no status byte gives the
  empty text, and so does one that ends inside its language code. It never fails.
\<close>

definition text_decodePayload :: "byte list \<Rightarrow> ndef_error + string" where
  "text_decodePayload data =
     (case data of
        [] \<Rightarrow> Inr []
      | status # rest \<Rightarrow>
          let languageCodeLength = unat (status AND 0x3F);
              utf16 = (status AND 0x80 \<noteq> 0);
              body = drop languageCodeLength rest
          in Inr (if utf16 then utf16_string body else utf8_string body))"

text \<open>
  Modelled from the spec: \<open>Ndef.textRecord\<close>, the Encode operation. One well-known "T"
  record; its payload is the status byte (the length of the language code, UTF-16 bit
  unset), the fixed language code "en" and the UTF-8 bytes of the text.
\<close>

definition languageCode :: string where
  "languageCode = ''en''"

definition textRecord :: "string \<Rightarrow> NdefRecord" where
  "textRecord s =
     \<lparr> tnf = TNF_WELL_KNOWN, rtype = RTD_TEXT, rec_id = Some [],
       payload = (of_nat (length languageCode) AND 0x3F) # utf8_bytes languageCode @ utf8_bytes s \<rparr>"

text \<open>
  Modelled from the spec: \<open>Ndef.uri.decodePayload\<close>. The first byte is the abbreviation
  code, looked up in a fixed table; the rest is the suffix, as UTF-8. The table is a
  parameter. The decoder of the library checks nothing: a code that the table does not
  have stands for no prefix, as code 0x00 does, and a payload with no code byte gives the
  empty text. It never fails.
\<close>

definition uri_decodePayload :: "(nat \<rightharpoonup> string) \<Rightarrow> byte list \<Rightarrow> ndef_error + string" where
  "uri_decodePayload table data =
     (case data of
        [] \<Rightarrow> Inr []
      | code # rest \<Rightarrow>
          (case table (unat code) of
             None \<Rightarrow> Inr (utf8_string rest)
           | Some abbreviation \<Rightarrow> Inr (abbreviation @ utf8_string rest)))"

text \<open>
  Modelled from the spec: the abbreviation table, by code. The specification quotes the
  codes 0x00 (no prefix), 0x01 and 0x04; the table is the one of the NFC Forum URI record
  type, whose layout the specification takes over.
\<close>

definition uri_protocols :: "string list" where
  "uri_protocols =
     ['''', ''http://www.'', ''https://www.'', ''http://'', ''https://'', ''tel:'',
      ''mailto:'', ''ftp://anonymous:anonymous@'', ''ftp://ftp.'', ''ftps://'', ''sftp://'',
      ''smb://'', ''nfs://'', ''ftp://'', ''dav://'', ''news:'', ''telnet://'', ''imap:'',
      ''rtsp://'', ''urn:'', ''pop:'', ''sip:'', ''sips:'', ''tftp:'', ''btspp://'',
      ''btl2cap://'', ''btgoep://'', ''tcpobex://'', ''irdaobex://'', ''file://'',
      ''urn:epc:id:'', ''urn:epc:tag:'', ''urn:epc:pat:'', ''urn:epc:raw:'', ''urn:epc:'',
      ''urn:nfc:'']"

definition uri_table :: "nat \<rightharpoonup> string" where
  "uri_table code =
     (if code < length uri_protocols then Some (uri_protocols ! code) else None)"

section \<open>Rendering an NDEF message\<close>

text \<open>
  \<open>parseNdefMessage\<close> takes one record, an array of records, or nothing. The two payload
  decoders are arguments of the model, so that what is proved of the render holds for
  every decoder; \<open>parseNdefMessage\<close> itself is the render with the decoders above. A
  decoder that throws ends the \<open>forEach\<close> and the function: nothing in it catches.
\<close>

datatype ndef_arg = Null | Single NdefRecord | Many "NdefRecord list"

text \<open>
  The callback of \<open>forEach\<close>: first the lines that every record gets (index, TNF, type,
  and the id if it is not empty), then the line of the payload.
\<close>

definition record_header :: "nat \<Rightarrow> NdefRecord \<Rightarrow> string" where
  "record_header index record =
     ''Record '' @ toString (index + 1) @ '':\<newline>''
     @ ''  TNF: '' @ toString (tnf record) @ '' (0x''
     @ padStart 2 CHR ''0'' (toString_radix 16 (tnf record)) @ '')\<newline>''
     @ ''  Type: '' @ bytesToHexString (rtype record) @ ''\<newline>''
     @ (case rec_id record of
          Some i \<Rightarrow> if length i > 0 then ''  ID: '' @ bytesToHexString i @ ''\<newline>'' else []
        | None \<Rightarrow> [])"

definition render_record ::
  "(byte list \<Rightarrow> 'e + string) \<Rightarrow> (byte list \<Rightarrow> 'e + string) \<Rightarrow> nat \<Rightarrow> NdefRecord \<Rightarrow> 'e + string"
where
  "render_record decodeText decodeUri index record =
     (if isType record TNF_WELL_KNOWN RTD_TEXT then
        (case decodeText (payload record) of
           Inl e \<Rightarrow> Inl e
         | Inr decoded \<Rightarrow>
             Inr (record_header index record @ ''  Decoded: '' @ decoded @ ''\<newline>''))
      else if isType record TNF_WELL_KNOWN RTD_URI then
        (case decodeUri (payload record) of
           Inl e \<Rightarrow> Inl e
         | Inr decoded \<Rightarrow>
             Inr (record_header index record @ ''  Decoded: '' @ decoded @ ''\<newline>''))
      else
        Inr (record_header index record @ ''  Payload: '' @ bytesToHexString (payload record)
               @ ''\<newline>''))"

text \<open>\<open>records.forEach\<close>, from the given index, with \<open>result\<close> as accumulator.\<close>

fun forEach_record ::
  "(byte list \<Rightarrow> 'e + string) \<Rightarrow> (byte list \<Rightarrow> 'e + string) \<Rightarrow> nat \<Rightarrow> NdefRecord list \<Rightarrow> string
     \<Rightarrow> 'e + string"
where
  "forEach_record decodeText decodeUri index [] result = Inr result"
| "forEach_record decodeText decodeUri index (record # records) result =
     (case render_record decodeText decodeUri index record of
        Inl e \<Rightarrow> Inl e
      | Inr entry \<Rightarrow> forEach_record decodeText decodeUri (Suc index) records (result @ entry))"

definition parseNdefMessage_with ::
  "(byte list \<Rightarrow> 'e + string) \<Rightarrow> (byte list \<Rightarrow> 'e + string) \<Rightarrow> ndef_arg \<Rightarrow> 'e + string"
where
  "parseNdefMessage_with decodeText decodeUri ndefMessage =
     (case ndefMessage of
        Null \<Rightarrow> Inr ''No NDEF message found.''
      | _ \<Rightarrow>
          let records = (case ndefMessage of Many rs \<Rightarrow> rs | Single r \<Rightarrow> [r] | Null \<Rightarrow> [])
          in if length records = 0 then Inr ''No NDEF message found.''
             else (case forEach_record decodeText decodeUri 0 records [] of
                     Inl e \<Rightarrow> Inl e
                   | Inr result \<Rightarrow> Inr (trim result)))"

definition parseNdefMessage :: "ndef_arg \<Rightarrow> ndef_error + string" where
  "parseNdefMessage = parseNdefMessage_with text_decodePayload (uri_decodePayload uri_table)"

section \<open>The component's state\<close>

record ScannedItem =
  item_id :: string
  tagDetails :: string
  ndefMessage :: "NdefRecord list"
  createdAt :: string

text \<open>
  A tag as the driver reports it. Every field may be missing; \<open>tag.id\<close> is a byte array,
  which JavaScript takes as true whenever it is present.
\<close>

record TagEvent =
  tag_id :: "byte list option"
  techTypes :: "string list option"
  tag_type :: "string option"
  maxSize :: "nat option"
  tag_ndefMessage :: "NdefRecord list option"

datatype HCESession = HCESession

text \<open>The argument of \<open>new NFCTagType4\<close>; its \<open>type\<close> is always \<open>Text\<close>.\<close>

record NFCTagType4 =
  content :: string
  writable :: bool

text \<open>
  The state of \<open>NfcScanner\<close>: its four \<open>useState\<close> values, the archive and its loading
  flag from \<open>useSecureStorage\<close>, and the \<open>isCancelling\<close> ref.
\<close>

record state =
  nfcStatus :: string
  isScanning :: bool
  scannedItemsLoading :: bool
  scannedItems :: "ScannedItem list option"
  emittingItem :: "string option"
  hceSession :: "HCESession option"
  isCancelling :: bool

definition initial_state :: state where
  "initial_state =
     \<lparr> nfcStatus = ''Checking NFC availability...'', isScanning = False,
       scannedItemsLoading = True, scannedItems = None, emittingItem = None,
       hceSession = None, isCancelling = False \<rparr>"

text \<open>
  What the component does to the outside: alerts, driver calls, the secure store, and a
  rejection that nothing catches. Console output is left out.
\<close>

datatype effect =
    Alert string string
  | NfcStart
  | NfcIsSupported
  | NfcIsEnabled
  | RequestTechnology
  | GetTag
  | CancelTechnologyRequest
  | HceGetInstance
  | HceSetApplication NFCTagType4
  | HceSetEnabled bool
  | StoreGetItem
  | StoreSetItem "ScannedItem list"
  | StoreDeleteItem
  | UnhandledRejection string

text \<open>
  A handler runs until its next \<open>await\<close> and leaves a continuation; other handlers can run
  before the awaited call settles. There is one continuation for each \<open>await\<close> of the
  sources. A press calls the handler of the latest render, whose closure has the state of
  that moment; a continuation holds what the closure captured and reads later, so
  \<open>readNdef\<close> and \<open>handleDeleteItem\<close> keep the archive of the moment they were called.
  The ref \<open>isCancelling.current\<close> is read from the live state.
\<close>

datatype pending =
    AwaitNfcStart
  | AwaitHceGetInstance
  | AwaitIsSupported
  | AwaitIsEnabled
  | AwaitCancel
  | AwaitRequestTechnology "ScannedItem list option"
  | AwaitGetTag "ScannedItem list option"
  | AwaitDeleteDisable string "ScannedItem list option"
  | AwaitToggleDisable
  | AwaitSetApplication string
  | AwaitSetEnabled string
  | AwaitStoreGetItem

text \<open>
  How an awaited call settles: resolved with a value, or rejected with an error, of which
  the model keeps \<open>String(ex)\<close>. The stored archive is absent, unparsable, or parsed.
\<close>

datatype stored = NoItem | Unparsable | Parsed "ScannedItem list option"

datatype reply =
    Resolved
  | ResolvedBool bool
  | ResolvedTag "TagEvent option"
  | ResolvedSession HCESession
  | ResolvedStored stored
  | Rejected string

record clock =
  now :: nat
  iso :: string

type_synonym result = "state \<times> effect list \<times> pending list"

text \<open>JavaScript's truth of a string or null: null and the empty string are false.\<close>

definition truthy :: "string option \<Rightarrow> bool" where
  "truthy v = (case v of None \<Rightarrow> False | Some s \<Rightarrow> s \<noteq> [])"

text \<open>\<open>scannedItems || []\<close>.\<close>

definition or_empty :: "'a list option \<Rightarrow> 'a list" where
  "or_empty v = (case v of None \<Rightarrow> [] | Some xs \<Rightarrow> xs)"

text \<open>
  \<open>setScannedItems\<close> is \<open>setStoredValue\<close> of \<open>useSecureStorage\<close>: it sets the value and
  writes it to the store without waiting (\<open>setStorageItemAsync\<close> deletes the key for null).
\<close>

definition setStorageItemAsync :: "ScannedItem list option \<Rightarrow> effect list" where
  "setStorageItemAsync v = (case v of None \<Rightarrow> [StoreDeleteItem] | Some xs \<Rightarrow> [StoreSetItem xs])"

definition setScannedItems :: "ScannedItem list option \<Rightarrow> state \<Rightarrow> state \<times> effect list" where
  "setScannedItems newValue s = (s\<lparr>scannedItems := newValue\<rparr>, setStorageItemAsync newValue)"

text \<open>The \<open>then\<close> and \<open>catch\<close> of the effect of \<open>useSecureStorage\<close>.\<close>

definition useSecureStorage_loaded :: "reply \<Rightarrow> state \<Rightarrow> result option" where
  "useSecureStorage_loaded r s =
     (case r of
        ResolvedStored NoItem \<Rightarrow> Some (s\<lparr>scannedItemsLoading := False\<rparr>, [], [])
      | ResolvedStored Unparsable \<Rightarrow>
          Some (s\<lparr>scannedItems := None, scannedItemsLoading := False\<rparr>, [], [])
      | ResolvedStored (Parsed v) \<Rightarrow>
          Some (s\<lparr>scannedItems := v, scannedItemsLoading := False\<rparr>, [], [])
      | Rejected e \<Rightarrow> Some (s\<lparr>scannedItemsLoading := False\<rparr>, [], [])
      | _ \<Rightarrow> None)"

section \<open>Initialisation and teardown\<close>

text \<open>\<open>checkNfcSupport\<close>, up to each of its two awaits and after the second.\<close>

definition checkNfcSupport :: "state \<Rightarrow> result" where
  "checkNfcSupport s = (s, [NfcIsSupported], [AwaitIsSupported])"

definition checkNfcSupport_after_isSupported :: "reply \<Rightarrow> state \<Rightarrow> result option" where
  "checkNfcSupport_after_isSupported r s =
     (case r of
        ResolvedBool isSupported \<Rightarrow>
          if isSupported then Some (s, [NfcIsEnabled], [AwaitIsEnabled])
          else Some (s\<lparr>nfcStatus := ''NFC not supported''\<rparr>,
                     [Alert ''Not Supported'' ''This device does not support NFC.''], [])
      | Rejected ex \<Rightarrow> Some (s\<lparr>nfcStatus := ''Error checking NFC: '' @ ex\<rparr>, [], [])
      | _ \<Rightarrow> None)"

definition checkNfcSupport_after_isEnabled :: "reply \<Rightarrow> state \<Rightarrow> result option" where
  "checkNfcSupport_after_isEnabled r s =
     (case r of
        ResolvedBool isEnabled \<Rightarrow>
          if isEnabled then Some (s\<lparr>nfcStatus := ''Ready to Scan''\<rparr>, [], [])
          else Some (s\<lparr>nfcStatus := ''NFC is disabled''\<rparr>,
                     [Alert ''NFC Disabled''
                        ''NFC is required for this feature. Please enable it in settings.''], [])
      | Rejected ex \<Rightarrow> Some (s\<lparr>nfcStatus := ''Error checking NFC: '' @ ex\<rparr>, [], [])
      | _ \<Rightarrow> None)"

text \<open>
  \<open>initApp\<close>. After \<open>NfcManager.start()\<close> it calls \<open>checkNfcSupport\<close> without awaiting it and,
  on Android, asks for the HCE session.
\<close>

definition initApp :: "state \<Rightarrow> result" where
  "initApp s = (s, [NfcStart], [AwaitNfcStart])"

definition initApp_after_start :: "bool \<Rightarrow> reply \<Rightarrow> state \<Rightarrow> result option" where
  "initApp_after_start android r s =
     (case r of
        Resolved \<Rightarrow>
          (case checkNfcSupport s of
             (s1, es, ps) \<Rightarrow>
               if android then Some (s1, es @ [HceGetInstance], ps @ [AwaitHceGetInstance])
               else Some (s1, es, ps))
      | Rejected ex \<Rightarrow> Some (s\<lparr>nfcStatus := ''Initialization Error''\<rparr>, [], [])
      | _ \<Rightarrow> None)"

definition initApp_after_getInstance :: "reply \<Rightarrow> state \<Rightarrow> result option" where
  "initApp_after_getInstance r s =
     (case r of
        ResolvedSession session \<Rightarrow> Some (s\<lparr>hceSession := Some session\<rparr>, [], [])
      | Rejected ex \<Rightarrow> Some (s\<lparr>nfcStatus := ''Initialization Error''\<rparr>, [], [])
      | _ \<Rightarrow> None)"

text \<open>
  The cleanup that the effect returns. The effect has no dependencies, so it runs once,
  after the first render, and its cleanup is a closure of that render: the \<open>hceSession\<close>
  it reads is the one given here, not the live state. The cancellation's rejection is
  caught and dropped.
\<close>

definition cleanup :: "HCESession option \<Rightarrow> effect list" where
  "cleanup captured_hceSession =
     CancelTechnologyRequest
       # (case captured_hceSession of None \<Rightarrow> [] | Some session \<Rightarrow> [HceSetEnabled False])"

section \<open>Scanning\<close>

text \<open>The \<open>finally\<close> and the \<open>catch\<close> of \<open>readNdef\<close>; \<open>ex\<close> is \<open>String(ex)\<close>.\<close>

definition readNdef_finally :: "state \<Rightarrow> state" where
  "readNdef_finally s = s\<lparr>isScanning := False\<rparr>"

definition readNdef_catch :: "string \<Rightarrow> state \<Rightarrow> result" where
  "readNdef_catch errorString s =
     (if isCancelling s \<or> str_includes errorString ''UserCancel''
           \<or> str_includes errorString ''cancelled''
      then (readNdef_finally (s\<lparr>nfcStatus := ''Scan cancelled.''\<rparr>), [], [])
      else (readNdef_finally (s\<lparr>nfcStatus := ''Scan failed. Please try again.''\<rparr>), [], []))"

text \<open>The item that a found tag becomes.\<close>

definition tagDetails_of :: "TagEvent \<Rightarrow> string" where
  "tagDetails_of tag =
     ''--- Tag Details ---\<newline>''
     @ ''ID: '' @ (case tag_id tag of Some i \<Rightarrow> bytesToHexString i | None \<Rightarrow> ''N/A'') @ ''\<newline>''
     @ ''Tech Types: ''
     @ (case techTypes tag of Some ts \<Rightarrow> join '', '' ts | None \<Rightarrow> ''N/A'') @ ''\<newline>''
     @ ''Type: '' @ (if truthy (tag_type tag) then the (tag_type tag) else ''N/A'') @ ''\<newline>''
     @ ''Max Size: ''
     @ (case maxSize tag of
          Some m \<Rightarrow> if m \<noteq> 0 then toString m else ''N/A''
        | None \<Rightarrow> ''N/A'')
     @ '' bytes\<newline>''"

definition newItem :: "clock \<Rightarrow> TagEvent \<Rightarrow> ScannedItem" where
  "newItem clk tag =
     \<lparr> item_id = (case tag_id tag of
                    Some i \<Rightarrow> bytesToHexString i @ toString (now clk)
                  | None \<Rightarrow> toString (now clk)),
       tagDetails = tagDetails_of tag,
       ndefMessage = or_empty (tag_ndefMessage tag),
       createdAt = iso clk \<rparr>"

text \<open>
  \<open>readNdef\<close> up to its first \<open>await\<close>: the stop branch, the rejection while emitting, or
  the start of a scan.
\<close>

definition readNdef :: "state \<Rightarrow> result" where
  "readNdef s =
     (if isScanning s then
        (s\<lparr>isCancelling := True\<rparr>, [CancelTechnologyRequest], [AwaitCancel])
      else if truthy (emittingItem s) then
        (s, [Alert ''Cannot Scan'' ''Please stop emitting the current card before scanning.''], [])
      else
        (s\<lparr>isScanning := True, nfcStatus := ''Scanning...''\<rparr>, [RequestTechnology],
         [AwaitRequestTechnology (scannedItems s)]))"

text \<open>After \<open>cancelTechnologyRequest\<close> settles, either way.\<close>

definition readNdef_after_cancel :: "reply \<Rightarrow> state \<Rightarrow> result option" where
  "readNdef_after_cancel r s =
     (case r of
        Resolved \<Rightarrow> Some (s\<lparr>isCancelling := False, isScanning := False\<rparr>, [], [])
      | Rejected e \<Rightarrow> Some (s\<lparr>isCancelling := False, isScanning := False\<rparr>, [], [])
      | _ \<Rightarrow> None)"

definition readNdef_after_requestTechnology ::
  "ScannedItem list option \<Rightarrow> reply \<Rightarrow> state \<Rightarrow> result option"
where
  "readNdef_after_requestTechnology captured r s =
     (case r of
        Resolved \<Rightarrow> Some (s, [GetTag], [AwaitGetTag captured])
      | Rejected ex \<Rightarrow> Some (readNdef_catch ex s)
      | _ \<Rightarrow> None)"

definition readNdef_after_getTag ::
  "clock \<Rightarrow> ScannedItem list option \<Rightarrow> reply \<Rightarrow> state \<Rightarrow> result option"
where
  "readNdef_after_getTag clk captured r s =
     (case r of
        ResolvedTag (Some tag) \<Rightarrow>
          (let newItems = newItem clk tag # or_empty captured
           in case setScannedItems (Some newItems) s of
                (s1, es) \<Rightarrow> Some (readNdef_finally (s1\<lparr>nfcStatus := ''Scan successful!''\<rparr>), es, []))
      | ResolvedTag None \<Rightarrow>
          Some (readNdef_finally (s\<lparr>nfcStatus := ''No tag found. Try again.''\<rparr>), [], [])
      | Rejected ex \<Rightarrow> Some (readNdef_catch ex s)
      | _ \<Rightarrow> None)"

section \<open>Deleting\<close>

text \<open>The last two lines of \<open>handleDeleteItem\<close>, on the archive that its closure holds.\<close>

definition handleDeleteItem_filter :: "string \<Rightarrow> ScannedItem list option \<Rightarrow> state \<Rightarrow> result" where
  "handleDeleteItem_filter i captured s =
     (let newItems = filter (\<lambda>item. item_id item \<noteq> i) (or_empty captured)
      in case setScannedItems (Some newItems) s of (s1, es) \<Rightarrow> (s1, es, []))"

text \<open>
  \<open>handleDeleteItem\<close>. With no session, \<open>hceSession?.setEnabled(false)\<close> is undefined and
  the \<open>await\<close> of it resumes before any other handler runs.
\<close>

definition handleDeleteItem :: "string \<Rightarrow> state \<Rightarrow> result" where
  "handleDeleteItem i s =
     (if emittingItem s = Some i then
        (case hceSession s of
           Some session \<Rightarrow> (s, [HceSetEnabled False], [AwaitDeleteDisable i (scannedItems s)])
         | None \<Rightarrow> handleDeleteItem_filter i (scannedItems s) (s\<lparr>emittingItem := None\<rparr>))
      else handleDeleteItem_filter i (scannedItems s) s)"

text \<open>A rejection of \<open>setEnabled(false)\<close> is not caught: the handler ends there.\<close>

definition handleDeleteItem_after_setEnabled ::
  "string \<Rightarrow> ScannedItem list option \<Rightarrow> reply \<Rightarrow> state \<Rightarrow> result option"
where
  "handleDeleteItem_after_setEnabled i captured r s =
     (case r of
        Resolved \<Rightarrow> Some (handleDeleteItem_filter i captured (s\<lparr>emittingItem := None\<rparr>))
      | Rejected ex \<Rightarrow> Some (s, [UnhandledRejection ex], [])
      | _ \<Rightarrow> None)"

section \<open>Emitting\<close>

text \<open>
  \<open>handleEmitItem\<close> up to its first \<open>await\<close>. The text record of \<open>item.id\<close> is built and
  its payload decoded before the \<open>try\<close>, so a decoder that throws is not caught.
\<close>

definition handleEmitItem :: "ScannedItem \<Rightarrow> state \<Rightarrow> result" where
  "handleEmitItem item s =
     (case hceSession s of
        None \<Rightarrow> (s, [Alert ''Error'' ''HCE Session not initialized. Android only.''], [])
      | Some session \<Rightarrow>
          if isScanning s then
            (s, [Alert ''Cannot Emit'' ''Please stop scanning before emitting a card.''], [])
          else if emittingItem s = Some (item_id item) then
            (s, [HceSetEnabled False], [AwaitToggleDisable])
          else
            (let ndefRecord = textRecord (item_id item)
             in case text_decodePayload (payload ndefRecord) of
                  Inl e \<Rightarrow> (s, [UnhandledRejection ''MalformedPayload''], [])
                | Inr decodedText \<Rightarrow>
                    (let tag = \<lparr> content = decodedText, writable = False \<rparr>
                     in (s, [HceSetApplication tag], [AwaitSetApplication (item_id item)]))))"

definition handleEmitItem_after_toggle :: "reply \<Rightarrow> state \<Rightarrow> result option" where
  "handleEmitItem_after_toggle r s =
     (case r of
        Resolved \<Rightarrow> Some (s\<lparr>emittingItem := None\<rparr>, [], [])
      | Rejected ex \<Rightarrow> Some (s, [UnhandledRejection ex], [])
      | _ \<Rightarrow> None)"

definition handleEmitItem_catch :: "state \<Rightarrow> result" where
  "handleEmitItem_catch s = (s, [Alert ''Emulation Error'' ''Failed to start HCE session.''], [])"

definition handleEmitItem_after_setApplication :: "string \<Rightarrow> reply \<Rightarrow> state \<Rightarrow> result option" where
  "handleEmitItem_after_setApplication i r s =
     (case r of
        Resolved \<Rightarrow> Some (s, [HceSetEnabled True], [AwaitSetEnabled i])
      | Rejected ex \<Rightarrow> Some (handleEmitItem_catch s)
      | _ \<Rightarrow> None)"

definition handleEmitItem_after_setEnabled :: "string \<Rightarrow> reply \<Rightarrow> state \<Rightarrow> result option" where
  "handleEmitItem_after_setEnabled i r s =
     (case r of
        Resolved \<Rightarrow> Some (s\<lparr>emittingItem := Some i\<rparr>, [], [])
      | Rejected ex \<Rightarrow> Some (handleEmitItem_catch s)
      | _ \<Rightarrow> None)"

section \<open>The component as a machine\<close>

text \<open>
  A configuration is the state, the continuations that wait, and the effects so far. An
  event is a press of a button or the settling of an awaited call; \<open>Settle k r clk\<close>
  settles the \<open>k\<close>-th waiting continuation with reply \<open>r\<close> at time \<open>clk\<close>. A reply of a
  kind that the awaited call cannot give, or an index with no continuation, changes
  nothing. After the unmount no button is left to press; the continuations still run.
\<close>

record config =
  st :: state
  pend :: "pending list"
  log :: "effect list"
  android :: bool
  mounted :: bool

datatype event =
    PressScan
  | PressEmit ScannedItem
  | PressDelete string
  | Settle nat reply clock
  | Unmount

definition resume :: "bool \<Rightarrow> clock \<Rightarrow> pending \<Rightarrow> reply \<Rightarrow> state \<Rightarrow> result option" where
  "resume os_android clk p r s =
     (case p of
        AwaitNfcStart \<Rightarrow> initApp_after_start os_android r s
      | AwaitHceGetInstance \<Rightarrow> initApp_after_getInstance r s
      | AwaitIsSupported \<Rightarrow> checkNfcSupport_after_isSupported r s
      | AwaitIsEnabled \<Rightarrow> checkNfcSupport_after_isEnabled r s
      | AwaitCancel \<Rightarrow> readNdef_after_cancel r s
      | AwaitRequestTechnology captured \<Rightarrow> readNdef_after_requestTechnology captured r s
      | AwaitGetTag captured \<Rightarrow> readNdef_after_getTag clk captured r s
      | AwaitDeleteDisable i captured \<Rightarrow> handleDeleteItem_after_setEnabled i captured r s
      | AwaitToggleDisable \<Rightarrow> handleEmitItem_after_toggle r s
      | AwaitSetApplication i \<Rightarrow> handleEmitItem_after_setApplication i r s
      | AwaitSetEnabled i \<Rightarrow> handleEmitItem_after_setEnabled i r s
      | AwaitStoreGetItem \<Rightarrow> useSecureStorage_loaded r s)"

definition apply_result :: "config \<Rightarrow> result \<Rightarrow> config" where
  "apply_result c res =
     (case res of (s, es, ps) \<Rightarrow> c\<lparr>st := s, pend := pend c @ ps, log := log c @ es\<rparr>)"

definition press :: "(state \<Rightarrow> result) \<Rightarrow> config \<Rightarrow> config" where
  "press handler c = (if mounted c then apply_result c (handler (st c)) else c)"

fun step :: "event \<Rightarrow> config \<Rightarrow> config" where
  "step PressScan c = press readNdef c"
| "step (PressEmit item) c = press (handleEmitItem item) c"
| "step (PressDelete i) c = press (handleDeleteItem i) c"
| "step (Settle k r clk) c =
     (if k < length (pend c) then
        (case resume (android c) clk (pend c ! k) r (st c) of
           None \<Rightarrow> c
         | Some res \<Rightarrow> apply_result (c\<lparr>pend := take k (pend c) @ drop (Suc k) (pend c)\<rparr>) res)
      else c)"
| "step Unmount c =
     (if mounted c then c\<lparr>log := log c @ cleanup (hceSession initial_state), mounted := False\<rparr>
      else c)"

text \<open>
  The mount: the first render has the initial state, and the two effects start the read
  of the stored archive (the hook comes first) and \<open>initApp\<close>.
\<close>

definition mount :: "bool \<Rightarrow> config" where
  "mount os_android =
     \<lparr> st = initial_state, pend = [AwaitStoreGetItem, AwaitNfcStart],
       log = [StoreGetItem, NfcStart], android = os_android, mounted = True \<rparr>"

fun run :: "event list \<Rightarrow> config \<Rightarrow> config" where
  "run [] c = c"
| "run (e # es) c = run es (step e c)"

text \<open>
  Off Android the mount never asks for the HCE session: no session is there and no
  continuation waits for one.
\<close>

definition off_android :: "config \<Rightarrow> bool" where
  "off_android c =
     (\<not> android c \<and> hceSession (st c) = None \<and> AwaitHceGetInstance \<notin> set (pend c))"

text \<open>
  An emission is in flight while \<open>handleEmitItem\<close> waits for \<open>setApplication\<close> or for
  \<open>setEnabled(true)\<close>. The invariant of the modes: not scanning and emitting at once, no
  emission in flight while scanning, and no empty id emitted or about to be (JavaScript
  takes an empty \<open>emittingItem\<close> as false). An event is outside the race when it is not a
  press of Scan that starts a scan while an emission is in flight, and not a press of
  Emit on an item with an empty id.
\<close>

fun emit_id :: "pending \<Rightarrow> string option" where
  "emit_id (AwaitSetApplication i) = Some i"
| "emit_id (AwaitSetEnabled i) = Some i"
| "emit_id p = None"

definition emit_in_flight :: "config \<Rightarrow> bool" where
  "emit_in_flight c = list_ex (\<lambda>p. emit_id p \<noteq> None) (pend c)"

definition modes_inv :: "config \<Rightarrow> bool" where
  "modes_inv c =
     (\<not> (isScanning (st c) \<and> emittingItem (st c) \<noteq> None)
      \<and> \<not> (isScanning (st c) \<and> emit_in_flight c)
      \<and> emittingItem (st c) \<noteq> Some []
      \<and> list_all (\<lambda>p. emit_id p \<noteq> Some []) (pend c))"

fun outside_race :: "event \<Rightarrow> config \<Rightarrow> bool" where
  "outside_race PressScan c = (isScanning (st c) \<or> \<not> emit_in_flight c)"
| "outside_race (PressEmit item) c = (item_id item \<noteq> [])"
| "outside_race e c = True"

fun race_free :: "event list \<Rightarrow> config \<Rightarrow> bool" where
  "race_free [] c = True"
| "race_free (e # es) c = (outside_race e c \<and> race_free es (step e c))"

section \<open>Scenarios\<close>

text \<open>The inputs at which the theorems below are tried.\<close>

definition printable_ascii :: "string \<Rightarrow> bool" where
  "printable_ascii s = list_all (\<lambda>c. 0x20 \<le> (of_char c :: nat) \<and> (of_char c :: nat) \<le> 0x7E) s"

definition at :: "nat \<Rightarrow> clock" where
  "at n = \<lparr> now = n, iso = ''2023-11-14T22:13:20.000Z'' \<rparr>"

text \<open>
  The component on Android once everything that the mount started has settled: NFC is
  supported and enabled, the store held nothing, the HCE session is there.
\<close>

definition ready :: config where
  "ready =
     run [Settle 0 (ResolvedStored NoItem) (at 0), Settle 0 Resolved (at 0),
          Settle 0 (ResolvedBool True) (at 0), Settle 0 (ResolvedSession HCESession) (at 0),
          Settle 0 (ResolvedBool True) (at 0)]
       (mount True)"

definition tagA :: TagEvent where
  "tagA = \<lparr> tag_id = Some [0x04, 0xA1], techTypes = Some [''android.nfc.tech.Ndef''],
            tag_type = Some ''NFC Forum Type 2'', maxSize = Some 137,
            tag_ndefMessage = Some [textRecord ''hi''] \<rparr>"

definition tagB :: TagEvent where
  "tagB = \<lparr> tag_id = Some [0x04, 0xB2], techTypes = None, tag_type = None, maxSize = None,
            tag_ndefMessage = None \<rparr>"

definition tagC :: TagEvent where
  "tagC = \<lparr> tag_id = None, techTypes = None, tag_type = Some [], maxSize = Some 0,
            tag_ndefMessage = Some [] \<rparr>"

definition itemA :: ScannedItem where
  "itemA = newItem (at 1001) tagA"

definition itemB :: ScannedItem where
  "itemB = newItem (at 1002) tagB"

definition itemC :: ScannedItem where
  "itemC = newItem (at 1003) tagC"

text \<open>One scan that runs from the press to the tag with nothing in between.\<close>

definition scan_events :: "nat \<Rightarrow> TagEvent \<Rightarrow> clock \<Rightarrow> event list" where
  "scan_events k tag clk =
     [PressScan, Settle k Resolved clk, Settle k (ResolvedTag (Some tag)) clk]"

text \<open>One emission that runs from the press to the enabled channel.\<close>

definition emit_events :: "nat \<Rightarrow> ScannedItem \<Rightarrow> event list" where
  "emit_events k item = [PressEmit item, Settle k Resolved (at 0), Settle k Resolved (at 0)]"

definition emittingA :: config where
  "emittingA = run (emit_events 0 itemA) ready"

text \<open>An emission of \<open>itemA\<close> that waits for \<open>setEnabled(true)\<close>.\<close>

definition enablingA :: config where
  "enablingA = run [PressEmit itemA, Settle 0 Resolved (at 0)] ready"

text \<open>A scan that waits for its tag, and three scans done one after the other.\<close>

definition scanningReady :: config where
  "scanningReady = step PressScan ready"

definition scannedA :: config where
  "scannedA = run (scan_events 0 tagA (at 1001)) ready"

definition scannedB :: config where
  "scannedB = run (scan_events 0 tagB (at 1002)) scannedA"

definition scannedC :: config where
  "scannedC = run (scan_events 0 tagC (at 1003)) scannedB"

definition validTextRecord :: NdefRecord where
  "validTextRecord = textRecord ''hi''"

definition truncatedTextRecord :: NdefRecord where
  "truncatedTextRecord = \<lparr> tnf = TNF_WELL_KNOWN, rtype = RTD_TEXT, rec_id = None, payload = [] \<rparr>"

definition validUriRecord :: NdefRecord where
  "validUriRecord =
     \<lparr> tnf = TNF_WELL_KNOWN, rtype = RTD_URI, rec_id = None, payload = [0x04, 0x61, 0x2E, 0x62] \<rparr>"

definition binaryRecord :: NdefRecord where
  "binaryRecord = \<lparr> tnf = 2, rtype = [0x61], rec_id = Some [0x01], payload = [0x10, 0x20] \<rparr>"

text \<open>
  A text decoder that rejects a payload with no status byte, as the failure policy of the
  specification supposes a decoder may; the render is tried with it.
\<close>

definition strict_text_decodePayload :: "byte list \<Rightarrow> ndef_error + string" where
  "strict_text_decodePayload data =
     (if data = [] then Inl MalformedPayload else text_decodePayload data)"

section \<open>Evaluation\<close>

lemmas handler_defs =
  readNdef_def readNdef_after_cancel_def readNdef_after_requestTechnology_def
  readNdef_after_getTag_def readNdef_catch_def readNdef_finally_def
  handleDeleteItem_def handleDeleteItem_filter_def handleDeleteItem_after_setEnabled_def
  handleEmitItem_def handleEmitItem_after_toggle_def handleEmitItem_catch_def
  handleEmitItem_after_setApplication_def handleEmitItem_after_setEnabled_def
  initApp_after_start_def initApp_after_getInstance_def checkNfcSupport_def
  checkNfcSupport_after_isSupported_def checkNfcSupport_after_isEnabled_def
  useSecureStorage_loaded_def setScannedItems_def setStorageItemAsync_def
  truthy_def or_empty_def

lemmas machine_defs = resume_def apply_result_def press_def cleanup_def

lemma utf8_string_bytes: "utf8_string (utf8_bytes s) = s"
  by (induction s) (simp_all add: utf8_string_def utf8_bytes_def unat_of_nat)

lemma text_round_trip: "text_decodePayload (payload (textRecord s)) = Inr s"
  by (simp add: text_decodePayload_def textRecord_def languageCode_def utf8_bytes_def
      utf8_string_bytes [unfolded utf8_bytes_def] Let_def)

lemma textRecord_isType: "isType (textRecord s) TNF_WELL_KNOWN RTD_TEXT"
  by (simp add: isType_def textRecord_def)

lemma ready_eq:
  "ready =
     \<lparr> st = \<lparr> nfcStatus = ''Ready to Scan'', isScanning = False, scannedItemsLoading = False,
              scannedItems = None, emittingItem = None, hceSession = Some HCESession,
              isCancelling = False \<rparr>,
       pend = [],
       log = [StoreGetItem, NfcStart, NfcIsSupported, HceGetInstance, NfcIsEnabled],
       android = True, mounted = True \<rparr>"
  by (simp add: ready_def mount_def initial_state_def machine_defs handler_defs)

lemmas eval_defs = bytesToHexString_def toString_def padStart_def digit_char_def at_def

lemmas trim_eval =
  trim_def trimStart_def trimEnd_def lead_len_def js_whitespace_def bytes_string_def
  char_of_def bit_0 upt_rec

lemma ready_facts:
  "mounted ready" "\<not> isScanning (st ready)" "emittingItem (st ready) = None" "pend ready = []"
  "scannedItems (st ready) = None" "hceSession (st ready) = Some HCESession"
  by (simp_all add: ready_eq)

lemma itemA_id: "item_id itemA = ''04a11001''"
  by (simp add: itemA_def newItem_def tagA_def eval_defs)

lemma itemB_id: "item_id itemB = ''04b21002''"
  by (simp add: itemB_def newItem_def tagB_def eval_defs)

lemma itemC_id: "item_id itemC = ''1003''"
  by (simp add: itemC_def newItem_def tagC_def eval_defs)

lemma emittingA_eq:
  "emittingA =
     ready\<lparr>st := (st ready)\<lparr>emittingItem := Some ''04a11001''\<rparr>,
           log := log ready @ [HceSetApplication \<lparr>content = ''04a11001'', writable = False\<rparr>,
                               HceSetEnabled True]\<rparr>"
  by (simp add: emittingA_def emit_events_def ready_eq machine_defs handleEmitItem_def
      handleEmitItem_after_setApplication_def handleEmitItem_after_setEnabled_def
      text_round_trip itemA_id)

lemma enablingA_eq:
  "enablingA =
     ready\<lparr>pend := [AwaitSetEnabled ''04a11001''],
           log := log ready @ [HceSetApplication \<lparr>content = ''04a11001'', writable = False\<rparr>,
                               HceSetEnabled True]\<rparr>"
  by (simp add: enablingA_def ready_eq machine_defs handleEmitItem_def
      handleEmitItem_after_setApplication_def text_round_trip itemA_id)

lemma scanningReady_eq:
  "scanningReady =
     ready\<lparr>st := (st ready)\<lparr>isScanning := True, nfcStatus := ''Scanning...''\<rparr>,
           pend := [AwaitRequestTechnology None], log := log ready @ [RequestTechnology]\<rparr>"
  by (simp add: scanningReady_def ready_eq machine_defs handler_defs)

section \<open>The render\<close>

lemma render_record_isl:
  "isl (render_record dt du k r)
     = (if isType r TNF_WELL_KNOWN RTD_TEXT then isl (dt (payload r))
        else if isType r TNF_WELL_KNOWN RTD_URI then isl (du (payload r)) else False)"
  by (simp add: render_record_def split: sum.splits)

text \<open>One record whose decoder throws is enough for the loop to throw.\<close>

lemma forEach_fails:
  assumes "r \<in> set rs" and "isl (render_record dt du 0 r)"
  shows "isl (forEach_record dt du k rs acc)"
  using assms(1)
proof (induction rs arbitrary: k acc)
  case Nil
  then show ?case by simp
next
  case (Cons x xs)
  show ?case
  proof (cases "render_record dt du k x")
    case (Inl e)
    then show ?thesis by simp
  next
    case (Inr entry)
    then have "\<not> isl (render_record dt du 0 x)"
      using render_record_isl [of dt du k x] render_record_isl [of dt du 0 x] by simp
    with Cons.prems assms(2) have "r \<in> set xs" by auto
    from Cons.IH [OF this] Inr show ?thesis by simp
  qed
qed

text \<open>When every record renders, the loop appends the entries in order.\<close>

lemma forEach_entries:
  assumes "length entries = length rs"
    and "\<forall>j<length rs. render_record dt du (k + j) (rs ! j) = Inr (entries ! j)"
  shows "forEach_record dt du k rs acc = Inr (acc @ concat entries)"
  using assms
proof (induction rs arbitrary: k acc entries)
  case Nil
  then show ?case by simp
next
  case (Cons x xs)
  then obtain e es where entries: "entries = e # es" and len: "length es = length xs"
    by (cases entries) auto
  from Cons.prems(2) have hd: "render_record dt du k x = Inr e"
    by (auto simp: entries dest: spec [of _ 0])
  have tl: "\<forall>j<length xs. render_record dt du (Suc k + j) (xs ! j) = Inr (es ! j)"
  proof (intro allI impI)
    fix j assume "j < length xs"
    with Cons.prems(2) [rule_format, of "Suc j"]
    show "render_record dt du (Suc k + j) (xs ! j) = Inr (es ! j)"
      by (simp add: entries)
  qed
  from Cons.IH [OF len tl] hd show ?case by (simp add: entries)
qed

lemma render_validText:
  "render_record text_decodePayload du k validTextRecord
     = Inr (record_header k validTextRecord @ ''  Decoded: hi\<newline>'')"
  by (simp add: render_record_def validTextRecord_def text_round_trip textRecord_isType)

lemma render_truncated:
  "render_record text_decodePayload du k truncatedTextRecord
     = Inr (record_header k truncatedTextRecord @ ''  Decoded: \<newline>'')"
  by (simp add: render_record_def truncatedTextRecord_def isType_def text_decodePayload_def)

lemma render_truncated_strict:
  "render_record strict_text_decodePayload du k truncatedTextRecord = Inl MalformedPayload"
  by (simp add: render_record_def truncatedTextRecord_def isType_def
      strict_text_decodePayload_def)

lemma render_validText_strict:
  "render_record strict_text_decodePayload du k validTextRecord
     = Inr (record_header k validTextRecord @ ''  Decoded: hi\<newline>'')"
  by (simp add: render_record_def validTextRecord_def strict_text_decodePayload_def
      text_round_trip textRecord_isType) (simp add: textRecord_def)

lemma render_validUri:
  "render_record dt (uri_decodePayload uri_table) k validUriRecord
     = Inr (record_header k validUriRecord @ ''  Decoded: https://a.b\<newline>'')"
  by (simp add: render_record_def validUriRecord_def isType_def TNF_WELL_KNOWN_def RTD_TEXT_def
      RTD_URI_def uri_decodePayload_def uri_table_def uri_protocols_def utf8_string_def
      char_of_def bit_0)

lemma render_binary:
  "render_record dt du k binaryRecord
     = Inr (record_header k binaryRecord @ ''  Payload: 1020\<newline>'')"
  by (simp add: render_record_def binaryRecord_def isType_def TNF_WELL_KNOWN_def RTD_TEXT_def
      RTD_URI_def eval_defs)

lemma headers:
  "record_header 0 validTextRecord
     = ''Record 1:\<newline>  TNF: 1 (0x01)\<newline>  Type: 54\<newline>''"
  "record_header (Suc 0) binaryRecord
     = ''Record 2:\<newline>  TNF: 2 (0x02)\<newline>  Type: 61\<newline>  ID: 01\<newline>''"
  "record_header (Suc (Suc 0)) validUriRecord
     = ''Record 3:\<newline>  TNF: 1 (0x01)\<newline>  Type: 55\<newline>''"
  by (simp_all add: record_header_def validTextRecord_def textRecord_def binaryRecord_def
      validUriRecord_def TNF_WELL_KNOWN_def RTD_TEXT_def RTD_URI_def eval_defs)

lemma forEach_three:
  "forEach_record text_decodePayload (uri_decodePayload uri_table) 0
     [validTextRecord, binaryRecord, validUriRecord] []
   = Inr ''Record 1:\<newline>  TNF: 1 (0x01)\<newline>  Type: 54\<newline>  Decoded: hi\<newline>Record 2:\<newline>  TNF: 2 (0x02)\<newline>  Type: 61\<newline>  ID: 01\<newline>  Payload: 1020\<newline>Record 3:\<newline>  TNF: 1 (0x01)\<newline>  Type: 55\<newline>  Decoded: https://a.b\<newline>''"
  by (simp add: render_validText render_binary render_validUri headers)

text \<open>A render in which every record decodes: three entries, the last newline trimmed.\<close>

lemma render_three:
  "parseNdefMessage (Many [validTextRecord, binaryRecord, validUriRecord])
   = Inr ''Record 1:\<newline>  TNF: 1 (0x01)\<newline>  Type: 54\<newline>  Decoded: hi\<newline>Record 2:\<newline>  TNF: 2 (0x02)\<newline>  Type: 61\<newline>  ID: 01\<newline>  Payload: 1020\<newline>Record 3:\<newline>  TNF: 1 (0x01)\<newline>  Type: 55\<newline>  Decoded: https://a.b''"
  by (simp add: parseNdefMessage_def parseNdefMessage_with_def forEach_three trim_eval
      del: forEach_record.simps)

lemma header_truncated:
  "record_header (Suc 0) truncatedTextRecord
     = ''Record 2:\<newline>  TNF: 1 (0x01)\<newline>  Type: 54\<newline>''"
  by (simp add: record_header_def truncatedTextRecord_def TNF_WELL_KNOWN_def RTD_TEXT_def
      eval_defs)

lemma forEach_truncated:
  "forEach_record text_decodePayload (uri_decodePayload uri_table) 0
     [validTextRecord, truncatedTextRecord, validUriRecord] []
   = Inr ''Record 1:\<newline>  TNF: 1 (0x01)\<newline>  Type: 54\<newline>  Decoded: hi\<newline>Record 2:\<newline>  TNF: 1 (0x01)\<newline>  Type: 54\<newline>  Decoded: \<newline>Record 3:\<newline>  TNF: 1 (0x01)\<newline>  Type: 55\<newline>  Decoded: https://a.b\<newline>''"
  by (simp add: render_validText render_truncated render_validUri headers header_truncated)

text \<open>
  The render of a valid text record, a text record with no status byte and a valid URI
  record: three entries, the second with the line of a decoded value and nothing in it.
\<close>

lemma render_truncated_three:
  "parseNdefMessage (Many [validTextRecord, truncatedTextRecord, validUriRecord])
   = Inr ''Record 1:\<newline>  TNF: 1 (0x01)\<newline>  Type: 54\<newline>  Decoded: hi\<newline>Record 2:\<newline>  TNF: 1 (0x01)\<newline>  Type: 54\<newline>  Decoded: \<newline>Record 3:\<newline>  TNF: 1 (0x01)\<newline>  Type: 55\<newline>  Decoded: https://a.b''"
  by (simp add: parseNdefMessage_def parseNdefMessage_with_def forEach_truncated trim_eval
      del: forEach_record.simps)

section \<open>The handlers\<close>

text \<open>Which continuations change \<open>emittingItem\<close>, and to what.\<close>

lemma resume_emittingItem:
  assumes "resume a clk p r s = Some (s', es, ps)"
    and "emittingItem s' \<noteq> emittingItem s"
  shows "(emittingItem s' = None
            \<and> (p = AwaitToggleDisable \<or> (\<exists>i cap. p = AwaitDeleteDisable i cap)) \<and> r = Resolved)
         \<or> (\<exists>i. emittingItem s' = Some i \<and> p = AwaitSetEnabled i \<and> r = Resolved)"
  using assms
  by (cases p; cases r)
    (auto simp: machine_defs handler_defs Let_def
      split: if_splits stored.splits option.splits prod.splits)

lemma press_emittingItem:
  "emittingItem (fst (readNdef s)) = emittingItem s"
  "emittingItem (fst (handleEmitItem item s)) = emittingItem s"
  "emittingItem (fst (handleDeleteItem i s)) = emittingItem s
     \<or> emittingItem (fst (handleDeleteItem i s)) = None"
  by (auto simp: handler_defs Let_def text_round_trip split: option.splits)

lemma step_records_emitting:
  assumes "emittingItem (st (step e c)) = Some i"
    and "emittingItem (st c) \<noteq> Some i"
  shows "\<exists>k clk. e = Settle k Resolved clk \<and> k < length (pend c) \<and> pend c ! k = AwaitSetEnabled i"
proof (cases e)
  case PressScan
  with assms press_emittingItem(1) [of "st c"] show ?thesis
    by (auto simp: press_def apply_result_def split: if_splits prod.splits)
next
  case (PressEmit item)
  with assms press_emittingItem(2) [of item "st c"] show ?thesis
    by (auto simp: press_def apply_result_def split: if_splits prod.splits)
next
  case (PressDelete d)
  with assms press_emittingItem(3) [of d "st c"] show ?thesis
    by (auto simp: press_def apply_result_def split: if_splits prod.splits)
next
  case (Settle k r clk)
  show ?thesis
  proof (cases "k < length (pend c)")
    case False
    with Settle assms show ?thesis by simp
  next
    case True
    show ?thesis
    proof (cases "resume (android c) clk (pend c ! k) r (st c)")
      case None
      with Settle True assms show ?thesis by simp
    next
      case (Some res)
      obtain s' es ps where res: "res = (s', es, ps)" by (cases res)
      with Settle True Some assms
      have s': "emittingItem s' = Some i" "emittingItem s' \<noteq> emittingItem (st c)"
        by (auto simp: apply_result_def)
      from resume_emittingItem [OF Some [unfolded res] s'(2)] s'(1)
      have "pend c ! k = AwaitSetEnabled i \<and> r = Resolved" by auto
      with Settle True show ?thesis by auto
    qed
  qed
next
  case Unmount
  with assms show ?thesis by (auto split: if_splits)
qed

lemma failed_enable_keeps_state:
  assumes "k < length (pend c)"
    and "pend c ! k = AwaitSetApplication i \<or> pend c ! k = AwaitSetEnabled i"
  shows "st (step (Settle k (Rejected ex) clk) c) = st c"
  using assms
  by (auto simp: machine_defs handleEmitItem_after_setApplication_def
      handleEmitItem_after_setEnabled_def handleEmitItem_catch_def)

text \<open>The two rejections that guard the modes.\<close>

lemma scan_rejected_while_emitting:
  assumes "\<not> isScanning s" and "truthy (emittingItem s)"
  shows "readNdef s
       = (s, [Alert ''Cannot Scan'' ''Please stop emitting the current card before scanning.''], [])"
  using assms by (simp add: readNdef_def)

lemma emit_rejected_while_scanning:
  assumes "hceSession s = Some h" and "isScanning s"
  shows "handleEmitItem item s
       = (s, [Alert ''Cannot Emit'' ''Please stop scanning before emitting a card.''], [])"
  using assms by (simp add: handleEmitItem_def)

text \<open>A scan, a deletion and a change of the emitted item, each run with nothing in between.\<close>

lemma scan_run:
  assumes "mounted c" and "\<not> isScanning (st c)" and "\<not> truthy (emittingItem (st c))"
  shows "run (scan_events (length (pend c)) tag clk) c
       = c\<lparr>st := (st c)\<lparr>isScanning := False, nfcStatus := ''Scan successful!'',
                        scannedItems := Some (newItem clk tag # or_empty (scannedItems (st c)))\<rparr>,
            log := log c @ [RequestTechnology, GetTag,
                            StoreSetItem (newItem clk tag # or_empty (scannedItems (st c)))]\<rparr>"
  using assms
  by (simp add: scan_events_def machine_defs readNdef_def readNdef_after_requestTechnology_def
      readNdef_after_getTag_def setScannedItems_def setStorageItemAsync_def readNdef_finally_def
      Let_def nth_append)

lemma delete_step:
  assumes "mounted c" and "emittingItem (st c) \<noteq> Some i"
  shows "scannedItems (st (step (PressDelete i) c))
       = Some (filter (\<lambda>item. item_id item \<noteq> i) (or_empty (scannedItems (st c))))"
  using assms
  by (simp add: machine_defs handleDeleteItem_def handleDeleteItem_filter_def
      setScannedItems_def setStorageItemAsync_def Let_def)

lemma delete_run:
  assumes "mounted c"
  shows "scannedItems (st (run [PressDelete i, Settle (length (pend c)) Resolved clk] c))
       = Some (filter (\<lambda>item. item_id item \<noteq> i) (or_empty (scannedItems (st c))))"
  using assms
  by (cases "hceSession (st c)")
    (simp_all add: machine_defs handleDeleteItem_def handleDeleteItem_filter_def
      handleDeleteItem_after_setEnabled_def setScannedItems_def setStorageItemAsync_def Let_def
      nth_append)

lemma switch_run:
  assumes "mounted c" and "hceSession (st c) = Some h" and "\<not> isScanning (st c)"
    and "emittingItem (st c) \<noteq> Some (item_id item)"
  shows "run [PressEmit item, Settle (length (pend c)) Resolved clk1,
              Settle (length (pend c)) Resolved clk2] c
       = c\<lparr>st := (st c)\<lparr>emittingItem := Some (item_id item)\<rparr>,
            log := log c @ [HceSetApplication \<lparr>content = item_id item, writable = False\<rparr>,
                            HceSetEnabled True]\<rparr>"
  using assms
  by (simp add: machine_defs handleEmitItem_def handleEmitItem_after_setApplication_def
      handleEmitItem_after_setEnabled_def text_round_trip nth_append)

lemma stop_in_flight:
  assumes "mounted c" and "isScanning (st c)" and "k < length (pend c)"
    and "pend c ! k = AwaitRequestTechnology cap \<or> pend c ! k = AwaitGetTag cap"
  shows "nfcStatus (st (run [PressScan, Settle k (Rejected ex) clk] c)) = ''Scan cancelled.''"
  using assms
  by (auto simp: machine_defs readNdef_def readNdef_after_requestTechnology_def
      readNdef_after_getTag_def readNdef_catch_def readNdef_finally_def nth_append)

lemma scannedA_facts:
  "mounted scannedA" "\<not> isScanning (st scannedA)" "emittingItem (st scannedA) = None"
  "pend scannedA = []" "scannedItems (st scannedA) = Some [itemA]"
  using scan_run [of ready tagA "at 1001"]
  by (simp_all add: scannedA_def ready_facts truthy_def or_empty_def itemA_def)

lemma scannedB_facts:
  "mounted scannedB" "\<not> isScanning (st scannedB)" "emittingItem (st scannedB) = None"
  "pend scannedB = []" "scannedItems (st scannedB) = Some [itemB, itemA]"
  using scan_run [of scannedA tagB "at 1002"]
  by (simp_all add: scannedB_def scannedA_facts truthy_def or_empty_def itemB_def)

lemma scannedC_facts:
  "mounted scannedC" "\<not> isScanning (st scannedC)" "emittingItem (st scannedC) = None"
  "pend scannedC = []" "scannedItems (st scannedC) = Some [itemC, itemB, itemA]"
  using scan_run [of scannedB tagC "at 1003"]
  by (simp_all add: scannedC_def scannedB_facts truthy_def or_empty_def itemC_def)

section \<open>Off Android\<close>

lemma resume_no_session:
  assumes "resume False clk p r s = Some (s', es, ps)" and "hceSession s = None"
    and "p \<noteq> AwaitHceGetInstance"
  shows "hceSession s' = None \<and> AwaitHceGetInstance \<notin> set ps"
  using assms
  by (cases p; cases r)
    (auto simp: machine_defs handler_defs Let_def
      split: if_splits stored.splits option.splits prod.splits)

lemma press_no_session:
  assumes "hceSession s = None"
  shows "hceSession (fst (readNdef s)) = None
           \<and> AwaitHceGetInstance \<notin> set (snd (snd (readNdef s)))"
    and "hceSession (fst (handleEmitItem item s)) = None
           \<and> AwaitHceGetInstance \<notin> set (snd (snd (handleEmitItem item s)))"
    and "hceSession (fst (handleDeleteItem i s)) = None
           \<and> AwaitHceGetInstance \<notin> set (snd (snd (handleDeleteItem i s)))"
  using assms by (auto simp: handler_defs Let_def split: option.splits)

lemma step_off_android:
  assumes "off_android c"
  shows "off_android (step e c)"
proof (cases e)
  case PressScan
  with assms press_no_session(1) [of "st c"] show ?thesis
    by (auto simp: off_android_def press_def apply_result_def split: prod.splits)
next
  case (PressEmit item)
  with assms press_no_session(2) [of "st c" item] show ?thesis
    by (auto simp: off_android_def press_def apply_result_def split: prod.splits)
next
  case (PressDelete d)
  with assms press_no_session(3) [of "st c" d] show ?thesis
    by (auto simp: off_android_def press_def apply_result_def split: prod.splits)
next
  case (Settle k r clk)
  show ?thesis
  proof (cases "k < length (pend c)")
    case False
    with Settle assms show ?thesis by simp
  next
    case True
    show ?thesis
    proof (cases "resume (android c) clk (pend c ! k) r (st c)")
      case None
      with Settle True assms show ?thesis by simp
    next
      case (Some res)
      obtain s' es ps where res: "res = (s', es, ps)" by (cases res)
      from assms True have pk: "pend c ! k \<noteq> AwaitHceGetInstance"
        by (auto simp: off_android_def dest: nth_mem)
      from assms have a: "android c = False" "hceSession (st c) = None"
        by (simp_all add: off_android_def)
      from resume_no_session [OF Some [unfolded res a(1)] a(2) pk]
      have "hceSession s' = None" "AwaitHceGetInstance \<notin> set ps" by simp_all
      moreover from assms have "AwaitHceGetInstance \<notin> set (take k (pend c))"
        and "AwaitHceGetInstance \<notin> set (drop (Suc k) (pend c))"
        by (auto simp: off_android_def dest: in_set_takeD in_set_dropD)
      ultimately show ?thesis
        using Settle True Some res assms by (simp add: off_android_def apply_result_def)
    qed
  qed
next
  case Unmount
  with assms show ?thesis by (auto simp: off_android_def)
qed

lemma run_off_android: "off_android c \<Longrightarrow> off_android (run es c)"
  by (induction es arbitrary: c) (simp_all add: step_off_android)

lemma no_session_off_android: "hceSession (st (run es (mount False))) = None"
proof -
  have "off_android (mount False)"
    by (simp add: off_android_def mount_def initial_state_def)
  from run_off_android [OF this] show ?thesis
    by (simp add: off_android_def)
qed

section \<open>Exclusion of the modes\<close>

text \<open>
  The invariant holds after the mount and is kept by every event outside the race: in a
  run where Scan is never pressed between a press of Emit and the settling of its HCE
  calls, the state is never scanning and emitting at once.
\<close>

lemma resume_scanning:
  assumes "resume a clk p r s = Some (s', es, ps)" and "isScanning s'"
  shows "isScanning s"
  using assms
  by (cases p; cases r)
    (auto simp: machine_defs handler_defs Let_def
      split: if_splits stored.splits option.splits prod.splits)

lemma resume_emit_pending:
  assumes "resume a clk p r s = Some (s', es, ps)" and "q \<in> set ps" and "emit_id q = Some i"
  shows "p = AwaitSetApplication i"
  using assms
  by (cases p; cases r)
    (auto simp: machine_defs handler_defs Let_def
      split: if_splits stored.splits option.splits prod.splits)

lemma modes_inv_press:
  assumes "modes_inv c" and "mounted c"
  shows "outside_race PressScan c \<Longrightarrow> modes_inv (step PressScan c)"
    and "outside_race (PressEmit item) c \<Longrightarrow> modes_inv (step (PressEmit item) c)"
    and "modes_inv (step (PressDelete d) c)"
  using assms
  by (auto simp: modes_inv_def emit_in_flight_def press_def apply_result_def handler_defs Let_def
      text_round_trip list_ex_iff list_all_iff split: option.splits if_splits)

lemma modes_inv_settle:
  assumes "modes_inv c"
  shows "modes_inv (step (Settle k r clk) c)"
proof (cases "k < length (pend c)")
  case False
  with assms show ?thesis by simp
next
  case True
  show ?thesis
  proof (cases "resume (android c) clk (pend c ! k) r (st c)")
    case None
    with True assms show ?thesis by simp
  next
    case (Some res)
    obtain s' es ps where res: "res = (s', es, ps)" by (cases res)
    note rs = Some [unfolded res]
    define c' where "c' = step (Settle k r clk) c"
    have st': "st c' = s'" and pend': "pend c' = take k (pend c) @ drop (Suc k) (pend c) @ ps"
      using True Some res by (simp_all add: c'_def apply_result_def)
    have pk: "pend c ! k \<in> set (pend c)" using True by simp
    have old: "set (take k (pend c)) \<union> set (drop (Suc k) (pend c)) \<subseteq> set (pend c)"
      by (auto dest: in_set_takeD in_set_dropD)
    have ids: "\<forall>p\<in>set (pend c). emit_id p \<noteq> Some []"
      using assms by (simp add: modes_inv_def list_all_iff)
    have new_ids: "emit_id q \<noteq> Some []" if "q \<in> set ps" for q
    proof
      assume "emit_id q = Some []"
      from resume_emit_pending [OF rs that this] pk ids show False by auto
    qed
    have scan: "isScanning s' \<Longrightarrow> isScanning (st c)"
      using resume_scanning [OF rs] .
    have noflight: "\<forall>p\<in>set (pend c). emit_id p = None" if "isScanning (st c)"
      using assms that by (auto simp: modes_inv_def emit_in_flight_def list_ex_iff)
    have 1: "\<not> (isScanning s' \<and> emittingItem s' \<noteq> None)"
    proof
      assume a: "isScanning s' \<and> emittingItem s' \<noteq> None"
      then have sc: "isScanning (st c)" using scan by simp
      with assms have "emittingItem (st c) = None" by (auto simp: modes_inv_def)
      with a have "emittingItem s' \<noteq> emittingItem (st c)" by simp
      from resume_emittingItem [OF rs this] a obtain i where "pend c ! k = AwaitSetEnabled i"
        by auto
      with noflight [OF sc] pk show False by auto
    qed
    have 2: "\<not> (isScanning s' \<and> emit_in_flight c')"
    proof
      assume a: "isScanning s' \<and> emit_in_flight c'"
      then have sc: "isScanning (st c)" using scan by simp
      from a obtain q where q: "q \<in> set (pend c')" "emit_id q \<noteq> None"
        by (auto simp: emit_in_flight_def list_ex_iff)
      from q(1) old have "q \<in> set (pend c) \<or> q \<in> set ps" by (auto simp: pend')
      then show False
      proof
        assume "q \<in> set (pend c)"
        with noflight [OF sc] q(2) show False by auto
      next
        assume qp: "q \<in> set ps"
        from q(2) obtain i where "emit_id q = Some i" by auto
        from resume_emit_pending [OF rs qp this] noflight [OF sc] pk show False by auto
      qed
    qed
    have 3: "emittingItem s' \<noteq> Some []"
    proof
      assume a: "emittingItem s' = Some []"
      with assms have "emittingItem s' \<noteq> emittingItem (st c)" by (auto simp: modes_inv_def)
      from resume_emittingItem [OF rs this] a have "pend c ! k = AwaitSetEnabled []" by auto
      with ids pk show False by auto
    qed
    have 4: "list_all (\<lambda>p. emit_id p \<noteq> Some []) (pend c')"
      using ids new_ids old by (auto simp: pend' list_all_iff)
    from 1 2 3 4 have "modes_inv c'" by (simp add: modes_inv_def st')
    then show ?thesis by (simp only: c'_def)
  qed
qed

lemma modes_inv_step:
  assumes "modes_inv c" and "outside_race e c"
  shows "modes_inv (step e c)"
proof (cases "mounted c")
  case True
  with assms modes_inv_press [of c] modes_inv_settle [of c] show ?thesis
    by (cases e) (auto simp: modes_inv_def emit_in_flight_def)
next
  case False
  with assms modes_inv_settle [of c] show ?thesis
    by (cases e) (auto simp: press_def)
qed

lemma modes_inv_run: "modes_inv c \<Longrightarrow> race_free es c \<Longrightarrow> modes_inv (run es c)"
  by (induction es arbitrary: c) (simp_all add: modes_inv_step)

lemma exclusion_without_race:
  assumes "race_free es (mount a)"
  shows "\<not> (isScanning (st (run es (mount a))) \<and> emittingItem (st (run es (mount a))) \<noteq> None)"
proof -
  have "modes_inv (mount a)"
    by (simp add: modes_inv_def mount_def initial_state_def emit_in_flight_def)
  from modes_inv_run [OF this assms] show ?thesis by (simp add: modes_inv_def)
qed

section \<open>The end of a scan\<close>

text \<open>
  What the \<open>catch\<close> of \<open>readNdef\<close> reports. A discovery that rejects after Stop was
  pressed and before the cancellation call has settled is reported as cancelled, whatever
  its error; so is a rejection while the flag is set or with an error text that contains
  "UserCancel" or "cancelled". Any other rejection is reported as failed, and a discovery
  that resolves with no tag as "no tag found". The three status texts differ.
\<close>

lemma scan_terminal_status:
  "(mounted c \<and> isScanning (st c) \<and> k < length (pend c)
      \<and> (pend c ! k = AwaitRequestTechnology cap \<or> pend c ! k = AwaitGetTag cap) \<longrightarrow>
        nfcStatus (st (run [PressScan, Settle k (Rejected ex) clk] c)) = ''Scan cancelled.'')
   \<and> (isCancelling s \<or> str_includes ex ''UserCancel'' \<or> str_includes ex ''cancelled'' \<longrightarrow>
        nfcStatus (fst (readNdef_catch ex s)) = ''Scan cancelled.'')
   \<and> (\<not> isCancelling s \<and> \<not> str_includes ex ''UserCancel'' \<and> \<not> str_includes ex ''cancelled'' \<longrightarrow>
        nfcStatus (fst (readNdef_catch ex s)) = ''Scan failed. Please try again.'')
   \<and> readNdef_after_requestTechnology cap (Rejected ex) s = Some (readNdef_catch ex s)
   \<and> readNdef_after_getTag clk cap (Rejected ex) s = Some (readNdef_catch ex s)
   \<and> readNdef_after_getTag clk cap (ResolvedTag None) s
       = Some (s\<lparr>nfcStatus := ''No tag found. Try again.'', isScanning := False\<rparr>, [], [])
   \<and> distinct [''Scan cancelled.'', ''Scan failed. Please try again.'', ''No tag found. Try again.'']"
  using stop_in_flight [of c k cap ex clk]
  by (simp add: readNdef_after_requestTechnology_def readNdef_after_getTag_def
      readNdef_catch_def readNdef_finally_def)

text \<open>A stopped scan whose rejection arrives while the cancellation call is awaited.\<close>

lemma stop_then_failure_in_flight:
  "nfcStatus (st (run [PressScan, Settle 0 (Rejected ''Error'') (at 0)] scanningReady))
     = ''Scan cancelled.''"
  using scan_terminal_status [of scanningReady 0 None "''Error''" "at 0"]
  by (simp add: scanningReady_eq ready_eq)

text \<open>
  A scan stopped while \<open>getTag\<close> is awaited, which then resolves with no tag: the status
  is the one of a discovery with no tag.
\<close>

lemma stop_then_no_tag:
  "nfcStatus
     (st (run [PressScan, Settle 0 Resolved (at 0), PressScan, Settle 1 Resolved (at 0),
               Settle 0 (ResolvedTag None) (at 0)] ready))
     = ''No tag found. Try again.''"
  by (simp add: ready_eq machine_defs handler_defs)

section \<open>The archive\<close>

text \<open>
  A scan that runs from the press to the tag with no event in between puts its item in
  front of the archive; a deletion keeps the items with another id, in their order, when
  the deleted item is not the emitted one, and when it is and the channel is disabled
  first.
\<close>

lemma archive_ordering:
  "(mounted c \<and> \<not> isScanning (st c) \<and> \<not> truthy (emittingItem (st c)) \<longrightarrow>
      scannedItems (st (run (scan_events (length (pend c)) tag clk) c))
        = Some (newItem clk tag # or_empty (scannedItems (st c))))
   \<and> (mounted c \<and> emittingItem (st c) \<noteq> Some i \<longrightarrow>
      scannedItems (st (step (PressDelete i) c))
        = Some (filter (\<lambda>item. item_id item \<noteq> i) (or_empty (scannedItems (st c)))))
   \<and> (mounted c \<longrightarrow>
      scannedItems (st (run [PressDelete i, Settle (length (pend c)) Resolved clk'] c))
        = Some (filter (\<lambda>item. item_id item \<noteq> i) (or_empty (scannedItems (st c)))))"
  using scan_run [of c tag clk] delete_step [of c i] delete_run [of c i clk']
  by simp

text \<open>The scans of A, B and C, one after the other, and then the deletion of B.\<close>

lemma archive_three_scans:
  "scannedItems (st scannedC) = Some [itemC, itemB, itemA]
   \<and> scannedItems (st (step (PressDelete (item_id itemB)) scannedC)) = Some [itemC, itemA]"
  using archive_ordering [of scannedC tagC "at 1003" "item_id itemB" "at 0"]
  by (simp add: scannedC_facts or_empty_def itemA_id itemB_id itemC_id)

text \<open>
  A deletion of the emitted item whose \<open>setEnabled(false)\<close> rejects: the handler ends at
  the rejection, before the filter, and the archive stays as it was.
\<close>

lemma rejected_disable_deletes_nothing:
  assumes "mounted c" and "emittingItem (st c) = Some i" and "hceSession (st c) = Some h"
  shows "st (run [PressDelete i, Settle (length (pend c)) (Rejected ex) clk] c) = st c"
  using assms
  by (simp add: machine_defs handleDeleteItem_def handleDeleteItem_after_setEnabled_def
      nth_append)

section \<open>The claims\<close>

subsection \<open>C1: the two modes exclude each other\<close>

text \<open>
  C1. In every reachable state the component is idle, scanning or emitting, never
  scanning and emitting at once; Emit is rejected while scanning and Scan while emitting.
  The two rejections hold (\<open>emit_rejected_while_scanning\<close>,
  \<open>scan_rejected_while_emitting\<close>), and so does the exclusion in every run outside the
  race (\<open>exclusion_without_race\<close>). But the guards are read when a handler starts, and
  \<open>handleEmitItem\<close> records the item two awaits later: a press of Scan between the
  press of Emit and the settling of \<open>setEnabled(true)\<close> passes the guard of \<open>readNdef\<close>,
  and the state ends scanning and emitting at once.
\<close>

theorem mode_exclusion_race:
  "st (run [PressEmit itemA, PressScan, Settle 0 Resolved (at 0), Settle 1 Resolved (at 0)] ready)
     = (st ready)\<lparr>isScanning := True, nfcStatus := ''Scanning...'',
                   emittingItem := Some ''04a11001''\<rparr>"
  by (simp add: ready_eq machine_defs handler_defs text_round_trip itemA_id)

subsection \<open>C2: a record whose payload does not decode\<close>

text \<open>
  C2, as stated: if decoding fails for one record, the render shows that record's payload
  as hex and goes on; the render of a valid text record, a truncated text record and a
  valid URI record has three entries, the middle one with the hex payload. The render
  does have three entries, but the middle one is not a hex payload: a text record always
  goes through the text decoder, which gives the empty text for a payload with no status
  byte.
\<close>

theorem render_truncated_not_hex:
  "parseNdefMessage (Many [validTextRecord, truncatedTextRecord, validUriRecord])
   = Inr ''Record 1:\<newline>  TNF: 1 (0x01)\<newline>  Type: 54\<newline>  Decoded: hi\<newline>Record 2:\<newline>  TNF: 1 (0x01)\<newline>  Type: 54\<newline>  Decoded: \<newline>Record 3:\<newline>  TNF: 1 (0x01)\<newline>  Type: 55\<newline>  Decoded: https://a.b''"
  by (rule render_truncated_three)

text \<open>
  C2, amended. For every pair of decoders and every record sequence: a record that is
  neither text nor URI gets the hex line of its payload; a text or URI record gets the
  line of the value that its decoder returns, never the hex line; if every record
  renders, the result is the entries of the records in order, trimmed. Nothing catches a
  decoder that throws: if the decoder of a text or URI record of the sequence fails, the
  whole render fails.
\<close>

theorem render_decode_failure_aborts:
  "(r \<in> set records \<and> isType r TNF_WELL_KNOWN RTD_TEXT \<and> decodeText (payload r) = Inl e \<longrightarrow>
      isl (parseNdefMessage_with decodeText decodeUri (Many records)))
   \<and> (r \<in> set records \<and> \<not> isType r TNF_WELL_KNOWN RTD_TEXT \<and> isType r TNF_WELL_KNOWN RTD_URI
        \<and> decodeUri (payload r) = Inl e \<longrightarrow>
      isl (parseNdefMessage_with decodeText decodeUri (Many records)))
   \<and> (records \<noteq> [] \<and> length entries = length records
        \<and> (\<forall>j<length records.
              render_record decodeText decodeUri j (records ! j) = Inr (entries ! j)) \<longrightarrow>
      parseNdefMessage_with decodeText decodeUri (Many records) = Inr (trim (concat entries)))
   \<and> (\<not> isType r TNF_WELL_KNOWN RTD_TEXT \<and> \<not> isType r TNF_WELL_KNOWN RTD_URI \<longrightarrow>
      render_record decodeText decodeUri k r
        = Inr (record_header k r @ ''  Payload: '' @ bytesToHexString (payload r) @ ''\<newline>''))
   \<and> (isType r TNF_WELL_KNOWN RTD_TEXT \<and> decodeText (payload r) = Inr t \<longrightarrow>
      render_record decodeText decodeUri k r
        = Inr (record_header k r @ ''  Decoded: '' @ t @ ''\<newline>''))
   \<and> (\<not> isType r TNF_WELL_KNOWN RTD_TEXT \<and> isType r TNF_WELL_KNOWN RTD_URI
        \<and> decodeUri (payload r) = Inr t \<longrightarrow>
      render_record decodeText decodeUri k r
        = Inr (record_header k r @ ''  Decoded: '' @ t @ ''\<newline>''))"
proof -
  have fail: "isl (parseNdefMessage_with decodeText decodeUri (Many records))"
    if "r \<in> set records" and "isl (render_record decodeText decodeUri 0 r)"
  proof -
    from that(1) have "records \<noteq> []" by auto
    moreover from forEach_fails [OF that]
    have "isl (forEach_record decodeText decodeUri 0 records [])" .
    ultimately show ?thesis
      by (auto simp: parseNdefMessage_with_def split: sum.splits)
  qed
  have ok: "parseNdefMessage_with decodeText decodeUri (Many records) = Inr (trim (concat entries))"
    if "records \<noteq> []" and "length entries = length records"
      and "\<forall>j<length records.
             render_record decodeText decodeUri j (records ! j) = Inr (entries ! j)"
    using forEach_entries [of entries records decodeText decodeUri 0 "[]"] that
    by (simp add: parseNdefMessage_with_def)
  show ?thesis
    using fail ok by (auto simp: render_record_isl) (simp_all add: render_record_def)
qed

text \<open>
  The theorem at the three records: with the decoder of the library the truncated record
  decodes to the empty text and gets the decoded line; with a decoder that rejects it the
  render fails; a record that is neither text nor URI gets the hex line.
\<close>

theorem render_decode_failure_aborts_witness:
  "isType truncatedTextRecord TNF_WELL_KNOWN RTD_TEXT
   \<and> text_decodePayload (payload truncatedTextRecord) = Inr []
   \<and> render_record text_decodePayload (uri_decodePayload uri_table) (Suc 0) truncatedTextRecord
       = Inr ''Record 2:\<newline>  TNF: 1 (0x01)\<newline>  Type: 54\<newline>  Decoded: \<newline>''
   \<and> truncatedTextRecord \<in> set [validTextRecord, truncatedTextRecord, validUriRecord]
   \<and> strict_text_decodePayload (payload truncatedTextRecord) = Inl MalformedPayload
   \<and> isl (parseNdefMessage_with strict_text_decodePayload (uri_decodePayload uri_table)
            (Many [validTextRecord, truncatedTextRecord, validUriRecord]))
   \<and> \<not> isType binaryRecord TNF_WELL_KNOWN RTD_TEXT \<and> \<not> isType binaryRecord TNF_WELL_KNOWN RTD_URI
   \<and> render_record text_decodePayload (uri_decodePayload uri_table) (Suc 0) binaryRecord
       = Inr ''Record 2:\<newline>  TNF: 2 (0x02)\<newline>  Type: 61\<newline>  ID: 01\<newline>  Payload: 1020\<newline>''"
proof -
  have h: "truncatedTextRecord \<in> set [validTextRecord, truncatedTextRecord, validUriRecord]
      \<and> isType truncatedTextRecord TNF_WELL_KNOWN RTD_TEXT
      \<and> strict_text_decodePayload (payload truncatedTextRecord) = Inl MalformedPayload"
    by (simp add: truncatedTextRecord_def isType_def strict_text_decodePayload_def)
  have d: "isType truncatedTextRecord TNF_WELL_KNOWN RTD_TEXT
      \<and> text_decodePayload (payload truncatedTextRecord) = Inr []"
    by (simp add: truncatedTextRecord_def isType_def text_decodePayload_def)
  have b: "\<not> isType binaryRecord TNF_WELL_KNOWN RTD_TEXT \<and> \<not> isType binaryRecord TNF_WELL_KNOWN RTD_URI"
    by (simp add: binaryRecord_def isType_def TNF_WELL_KNOWN_def)
  from render_decode_failure_aborts [of truncatedTextRecord
      "[validTextRecord, truncatedTextRecord, validUriRecord]" strict_text_decodePayload
      MalformedPayload "uri_decodePayload uri_table"] h
  have 1: "isl (parseNdefMessage_with strict_text_decodePayload (uri_decodePayload uri_table)
            (Many [validTextRecord, truncatedTextRecord, validUriRecord]))"
    by blast
  from render_decode_failure_aborts [of truncatedTextRecord _ text_decodePayload _
      "uri_decodePayload uri_table" _ "Suc 0" "[]"] d
  have "render_record text_decodePayload (uri_decodePayload uri_table) (Suc 0) truncatedTextRecord
       = Inr (record_header (Suc 0) truncatedTextRecord @ ''  Decoded: '' @ [] @ ''\<newline>'')"
    by blast
  then have 2: "render_record text_decodePayload (uri_decodePayload uri_table) (Suc 0)
        truncatedTextRecord
       = Inr ''Record 2:\<newline>  TNF: 1 (0x01)\<newline>  Type: 54\<newline>  Decoded: \<newline>''"
    by (simp add: header_truncated)
  from render_decode_failure_aborts [of binaryRecord _ text_decodePayload _
      "uri_decodePayload uri_table" _ "Suc 0"] b
  have "render_record text_decodePayload (uri_decodePayload uri_table) (Suc 0) binaryRecord
       = Inr (record_header (Suc 0) binaryRecord @ ''  Payload: ''
              @ bytesToHexString (payload binaryRecord) @ ''\<newline>'')"
    by blast
  then have 3: "render_record text_decodePayload (uri_decodePayload uri_table) (Suc 0) binaryRecord
       = Inr ''Record 2:\<newline>  TNF: 2 (0x02)\<newline>  Type: 61\<newline>  ID: 01\<newline>  Payload: 1020\<newline>''"
    by (simp add: headers) (simp add: binaryRecord_def eval_defs)
  from h d b 1 2 3 show ?thesis by simp
qed

subsection \<open>C3: how a scan ends\<close>

text \<open>
  C3. A scan that Stop ends before a tag is found is reported as cancelled, never as
  failed or as "no tag found"; a discovery with no tag is reported as "no tag found" and
  a driver error that is no cancellation as failed. The last two hold, and the stop
  branch of \<open>readNdef\<close> sets \<open>isCancelling\<close> for the \<open>catch\<close> to read
  (\<open>scan_terminal_status\<close>); but the flag is reset as soon as the cancellation call
  returns. Here the scan is started and stopped, the cancellation call returns, and then
  the discovery rejects with an error whose text names no cancellation: the stopped scan
  is reported as failed.
\<close>

theorem stop_then_late_failure:
  "run [PressScan, PressScan, Settle 1 Resolved (at 0), Settle 0 (Rejected ''Error'') (at 0)] ready
     = ready\<lparr>st := (st ready)\<lparr>nfcStatus := ''Scan failed. Please try again.''\<rparr>,
             log := log ready @ [RequestTechnology, CancelTechnologyRequest]\<rparr>"
  by (simp add: ready_eq machine_defs handler_defs)

subsection \<open>C4: the text codec\<close>

text \<open>
  C4. For every printable ASCII string \<open>s\<close>, the record that Encode builds for \<open>s\<close> is a
  well-known "T" record, and decoding its payload by the text branch gives \<open>s\<close> back.
  (\<open>text_round_trip\<close> shows the decoding for every string of the model.)
\<close>

theorem codec_round_trip:
  "printable_ascii s \<Longrightarrow>
     isType (textRecord s) TNF_WELL_KNOWN RTD_TEXT \<and>
     text_decodePayload (payload (textRecord s)) = Inr s"
  by (simp add: text_round_trip textRecord_isType)

theorem codec_round_trip_witness:
  "printable_ascii ''04a1 1700000000000~'' \<and>
   isType (textRecord ''04a1 1700000000000~'') TNF_WELL_KNOWN RTD_TEXT \<and>
   text_decodePayload (payload (textRecord ''04a1 1700000000000~'')) = Inr ''04a1 1700000000000~''"
proof -
  have p: "printable_ascii ''04a1 1700000000000~''"
    by (simp add: printable_ascii_def)
  from codec_round_trip [OF p] p show ?thesis by simp
qed

subsection \<open>C5: emitting another item while one is emitted\<close>

text \<open>
  C5, as stated: the change from one emitted item to another disables the channel and
  then enables it with the new payload. With \<open>itemA\<close> emitted, the emission of \<open>itemB\<close>
  sets the new application and enables; no call disables the channel.
\<close>

theorem switch_without_disable:
  "emittingItem (st emittingA) = Some (item_id itemA) \<and> item_id itemB \<noteq> item_id itemA
   \<and> emittingItem (st (run (emit_events 0 itemB) emittingA)) = Some (item_id itemB)
   \<and> log (run (emit_events 0 itemB) emittingA)
       = log emittingA @ [HceSetApplication \<lparr>content = item_id itemB, writable = False\<rparr>,
                          HceSetEnabled True]
   \<and> HceSetEnabled False \<notin> set (log (run (emit_events 0 itemB) emittingA))"
  by (simp add: emit_events_def emittingA_eq ready_eq machine_defs handleEmitItem_def
      handleEmitItem_after_setApplication_def handleEmitItem_after_setEnabled_def
      text_round_trip itemA_id itemB_id)

text \<open>
  C5, amended. While an item is emitted and no scan runs, Emit on an item with another id
  makes that id the emitted one by two HCE calls, \<open>setApplication\<close> with a text tag of the
  new id and then \<open>setEnabled(true)\<close>, when both resolve; the channel is not disabled in
  between.
\<close>

theorem switch_emission_target:
  assumes "mounted c" and "hceSession (st c) = Some h" and "\<not> isScanning (st c)"
    and "emittingItem (st c) = Some a" and "item_id item \<noteq> a"
  shows "run [PressEmit item, Settle (length (pend c)) Resolved clk1,
              Settle (length (pend c)) Resolved clk2] c
       = c\<lparr>st := (st c)\<lparr>emittingItem := Some (item_id item)\<rparr>,
            log := log c @ [HceSetApplication \<lparr>content = item_id item, writable = False\<rparr>,
                            HceSetEnabled True]\<rparr>"
  using assms switch_run [of c h item clk1 clk2] by simp

theorem switch_emission_target_witness:
  "mounted emittingA \<and> hceSession (st emittingA) = Some HCESession
   \<and> \<not> isScanning (st emittingA)
   \<and> emittingItem (st emittingA) = Some ''04a11001'' \<and> item_id itemB \<noteq> ''04a11001''
   \<and> run [PressEmit itemB, Settle (length (pend emittingA)) Resolved (at 0),
           Settle (length (pend emittingA)) Resolved (at 0)] emittingA
       = emittingA\<lparr>st := (st emittingA)\<lparr>emittingItem := Some (item_id itemB)\<rparr>,
            log := log emittingA
                     @ [HceSetApplication \<lparr>content = item_id itemB, writable = False\<rparr>,
                        HceSetEnabled True]\<rparr>"
proof -
  have h: "mounted emittingA" "hceSession (st emittingA) = Some HCESession"
    "\<not> isScanning (st emittingA)" "emittingItem (st emittingA) = Some ''04a11001''"
    "item_id itemB \<noteq> ''04a11001''"
    by (simp_all add: emittingA_eq ready_eq itemB_id)
  from switch_emission_target [OF h, of "at 0" "at 0"] h show ?thesis by simp
qed

subsection \<open>C6: the teardown\<close>

text \<open>
  C6. The teardown cancels the scan and disables the HCE channel, so that neither stays
  claimed. The cleanup does call \<open>cancelTechnologyRequest\<close>, but the \<open>hceSession\<close> it
  reads is the one of the first render, which is null: with \<open>itemA\<close> emitted, the unmount
  adds the cancellation alone to the calls, and the last HCE call stays
  \<open>setEnabled(true)\<close>.
\<close>

theorem teardown_leaves_hce_enabled:
  "emittingItem (st emittingA) = Some ''04a11001''
   \<and> hceSession (st emittingA) = Some HCESession
   \<and> step Unmount emittingA
       = emittingA\<lparr>log := [StoreGetItem, NfcStart, NfcIsSupported, HceGetInstance, NfcIsEnabled,
                           HceSetApplication \<lparr>content = ''04a11001'', writable = False\<rparr>,
                           HceSetEnabled True, CancelTechnologyRequest],
                    mounted := False\<rparr>"
  by (simp add: emittingA_eq ready_eq cleanup_def initial_state_def)

subsection \<open>C7: the order of the archive\<close>

text \<open>
  C7. Each completed scan puts its item in front of the archive, and a deletion removes
  the items with that id and keeps the others in their order. Both hold for scans and
  deletions that run one after the other (\<open>archive_ordering\<close>, \<open>archive_three_scans\<close>).
  But \<open>readNdef\<close> puts the new item in front of the archive that its closure captured at
  the press, not of the archive at the time the tag arrives. Here the archive is A; Scan
  is pressed, A is deleted while the scan waits (the archive is empty), and the scan
  then finds B: the archive is B, A, and the deleted A is back.
\<close>

theorem scan_restores_deleted_item:
  "scannedItems (st scannedA) = Some [itemA]
   \<and> scannedItems (st (run [PressScan, PressDelete (item_id itemA)] scannedA)) = Some []
   \<and> scannedItems
        (st (run [PressScan, PressDelete (item_id itemA), Settle 0 Resolved (at 0),
                  Settle 0 (ResolvedTag (Some tagB)) (at 1002)] scannedA))
       = Some [itemB, itemA]"
  by (simp add: scannedA_facts machine_defs handler_defs Let_def itemA_id itemB_def)

subsection \<open>C8: the id of a scanned item\<close>

text \<open>
  C8. When \<open>getTag\<close> resolves with a tag, the item put in front of the archive and
  written to the store has as id the hex string of the tag's id followed by \<open>Date.now()\<close>
  when the tag has an id, and \<open>Date.now()\<close> alone when it has none.
\<close>

theorem scanned_item_id:
  "readNdef_after_getTag clk captured (ResolvedTag (Some tag)) s
     = Some (s\<lparr>scannedItems := Some (newItem clk tag # or_empty captured),
               nfcStatus := ''Scan successful!'', isScanning := False\<rparr>,
             [StoreSetItem (newItem clk tag # or_empty captured)], [])
   \<and> (\<forall>i. tag_id tag = Some i \<longrightarrow>
          item_id (newItem clk tag) = bytesToHexString i @ toString (now clk))
   \<and> (tag_id tag = None \<longrightarrow> item_id (newItem clk tag) = toString (now clk))"
  by (simp add: readNdef_after_getTag_def setScannedItems_def setStorageItemAsync_def
      readNdef_finally_def newItem_def Let_def)

theorem scanned_item_id_witness:
  "tag_id tagA = Some [0x04, 0xA1]
   \<and> item_id (newItem (at 1700000000000) tagA) = ''04a11700000000000''
   \<and> tag_id tagC = None \<and> item_id (newItem (at 1700000000000) tagC) = ''1700000000000''"
proof -
  have a: "tag_id tagA = Some [0x04, 0xA1]" and c: "tag_id tagC = None"
    by (simp_all add: tagA_def tagC_def)
  from scanned_item_id [of "at 1700000000000" None tagA initial_state] a
  have "item_id (newItem (at 1700000000000) tagA)
      = bytesToHexString [0x04, 0xA1] @ toString (now (at 1700000000000))"
    by blast
  moreover from scanned_item_id [of "at 1700000000000" None tagC initial_state] c
  have "item_id (newItem (at 1700000000000) tagC) = toString (now (at 1700000000000))"
    by blast
  ultimately show ?thesis using a c
    by (simp add: eval_defs)
qed

subsection \<open>C9: emitting with no HCE session\<close>

text \<open>
  C9. Off Android no run ever has an HCE session. A press of Emit when there is no
  session is answered with the alert that HCE is not initialised; the state and the
  waiting continuations stay as they are and no HCE call is made: the alert is the only
  effect.
\<close>

theorem emit_without_session:
  "hceSession (st (run es (mount False))) = None
   \<and> (hceSession (st c) = None \<and> mounted c \<longrightarrow>
        step (PressEmit item) c
          = c\<lparr>log := log c @ [Alert ''Error'' ''HCE Session not initialized. Android only.'']\<rparr>)"
  by (simp add: no_session_off_android press_def apply_result_def handleEmitItem_def)

theorem emit_without_session_witness:
  "hceSession (st (mount False)) = None \<and> mounted (mount False) \<and>
   step (PressEmit itemA) (mount False)
     = (mount False)\<lparr>log := [StoreGetItem, NfcStart,
                             Alert ''Error'' ''HCE Session not initialized. Android only.'']\<rparr>"
proof -
  have h: "hceSession (st (mount False)) = None \<and> mounted (mount False)"
    by (simp add: mount_def initial_state_def)
  from emit_without_session [of "[]" "mount False" itemA] h
  have "step (PressEmit itemA) (mount False)
      = (mount False)\<lparr>log := log (mount False)
          @ [Alert ''Error'' ''HCE Session not initialized. Android only.'']\<rparr>"
    by blast
  with h show ?thesis by (simp add: mount_def)
qed

subsection \<open>C10: a failed enable records nothing\<close>

text \<open>
  C10. If \<open>setApplication\<close> or \<open>setEnabled(true)\<close> rejects, the handler alerts and leaves the
  state as it was. More: the only event after which a new item is recorded as emitting is
  the successful settling of \<open>setEnabled(true)\<close> for that item.
\<close>

theorem emit_failure_atomic:
  "handleEmitItem_after_setApplication i (Rejected ex) s
     = Some (s, [Alert ''Emulation Error'' ''Failed to start HCE session.''], [])
   \<and> handleEmitItem_after_setEnabled i (Rejected ex) s
     = Some (s, [Alert ''Emulation Error'' ''Failed to start HCE session.''], [])
   \<and> (k < length (pend c)
        \<and> (pend c ! k = AwaitSetApplication i \<or> pend c ! k = AwaitSetEnabled i) \<longrightarrow>
        st (step (Settle k (Rejected ex) clk) c) = st c)
   \<and> (emittingItem (st (step e c)) = Some j \<and> emittingItem (st c) \<noteq> Some j \<longrightarrow>
        (\<exists>k clk. e = Settle k Resolved clk \<and> k < length (pend c)
           \<and> pend c ! k = AwaitSetEnabled j))"
  using step_records_emitting [of e c j] failed_enable_keeps_state [of k c i ex clk]
  by (simp add: handleEmitItem_after_setApplication_def handleEmitItem_after_setEnabled_def
      handleEmitItem_catch_def)

theorem emit_failure_atomic_witness:
  "0 < length (pend enablingA) \<and> pend enablingA ! 0 = AwaitSetEnabled ''04a11001''
   \<and> st (step (Settle 0 (Rejected ''Error'') (at 0)) enablingA) = st enablingA
   \<and> emittingItem (st enablingA) = None
   \<and> emittingItem (st (step (Settle 0 Resolved (at 0)) enablingA)) = Some ''04a11001''"
proof -
  have p: "0 < length (pend enablingA)
      \<and> (pend enablingA ! 0 = AwaitSetApplication ''04a11001''
           \<or> pend enablingA ! 0 = AwaitSetEnabled ''04a11001'')"
    by (simp add: enablingA_eq ready_eq)
  from emit_failure_atomic [of "''04a11001''" "''Error''" "st enablingA" 0 enablingA "at 0"] p
  have r: "st (step (Settle 0 (Rejected ''Error'') (at 0)) enablingA) = st enablingA"
    by blast
  have h: "emittingItem (st (step (Settle 0 Resolved (at 0)) enablingA)) = Some ''04a11001''
      \<and> emittingItem (st enablingA) = None"
    by (simp add: enablingA_eq ready_eq machine_defs handleEmitItem_after_setEnabled_def)
  from p r h show ?thesis by (simp add: enablingA_eq ready_eq)
qed

end
